theory Spec2Isabelle
  imports Main "HOL-Library.Multiset" "HOL-Library.AList" "HOL-Library.Char_ord"
    "HOL-Library.List_Lexorder"
begin

section \<open>Clarity: the flat-file record store and the time-aggregation engine\<close>

text \<open>
  A shallow embedding of the persistence core of the application: the CSV tables of
  \<^verbatim>\<open>csvDb.ts\<close> and \<^verbatim>\<open>timerDatabase.ts\<close>, the JSON store of \<^verbatim>\<open>store.ts\<close>
  (sessions, daily stats, subject totals), the reminder checker of \<^verbatim>\<open>notifications.ts\<close>
  and \<^verbatim>\<open>localDateString\<close> of \<^verbatim>\<open>timeUtils.ts\<close>.

  Conventions of the model.
  \<^item> JavaScript numbers are modelled as \<^typ>\<open>int\<close>: the fields in question (ids, minutes,
    seconds, epoch milliseconds) hold integers; \<^verbatim>\<open>NaN\<close> and fractions are outside the model,
    so \<^verbatim>\<open>Math.floor\<close> is the identity and \<^verbatim>\<open>x || 0\<close> is \<open>x\<close> on a present number.
  \<^item> Strings are \<^typ>\<open>string\<close>; \<^verbatim>\<open>trim\<close> and \<^verbatim>\<open>toLowerCase\<close> are modelled on ASCII.
  \<^item> An optional argument or field is an \<^typ>\<open>'a option\<close>.
  \<^item> A thrown \<^verbatim>\<open>Error\<close> is the left injection of a sum; a function that can throw after it
    has written returns the store it leaves behind next to its outcome.
  \<^item> The clock (\<^verbatim>\<open>Date.now()\<close>, \<^verbatim>\<open>new Date()\<close>) and the time zone are parameters.
\<close>

subsection \<open>Strings\<close>

text \<open>\<^verbatim>\<open>String.prototype.trim\<close> on ASCII: tab, line feed, vertical tab, form feed, carriage
  return and space are white space.\<close>

definition isWhiteSpace :: "char \<Rightarrow> bool" where
  "isWhiteSpace c = (of_char c \<in> set [9, 10, 11, 12, 13, 32 :: nat])"

definition trim :: "string \<Rightarrow> string" where
  "trim s = rev (dropWhile isWhiteSpace (rev (dropWhile isWhiteSpace s)))"

definition lowerChar :: "char \<Rightarrow> char" where
  "lowerChar c =
     (let n = (of_char c :: nat) in if 65 \<le> n \<and> n \<le> 90 then char_of (n + 32) else c)"

definition toLowerCase :: "string \<Rightarrow> string" where
  "toLowerCase s = map lowerChar s"

text \<open>\<^verbatim>\<open>normalizeSubject(subject) { return subject.trim().toLowerCase(); }\<close>\<close>

definition normalizeSubject :: "string \<Rightarrow> string" where
  "normalizeSubject subject = toLowerCase (trim subject)"

subsection \<open>The three files of a table and the atomic write\<close>

text \<open>
  A table \<^verbatim>\<open>name.csv\<close> lives in three paths: the file itself, \<^verbatim>\<open>name.csv.tmp\<close> and
  \<^verbatim>\<open>name.csv.bak\<close>. The content type \<open>'c\<close> is what \<^verbatim>\<open>Papa.unparse\<close> (or
  \<^verbatim>\<open>JSON.stringify\<close>) produced. Each call of the \<^verbatim>\<open>fs\<close> module inside the write is a
  call site; \<open>faults\<close> is the set of call sites at which the operating system makes the call
  throw. A call that throws leaves the files as they were.
\<close>

datatype path = FilePath | TempFilePath | BackupFilePath

datatype fs_op = WriteTemp | BackupRename | InstallRename | RestoreRename

datatype io_error = IOFailure fs_op | ENOENT fs_op

record 'c files =
  primary :: "'c option"
  temp :: "'c option"
  backup :: "'c option"

fun readPath :: "path \<Rightarrow> 'c files \<Rightarrow> 'c option" where
  "readPath FilePath fs = primary fs"
| "readPath TempFilePath fs = temp fs"
| "readPath BackupFilePath fs = backup fs"

fun writePath :: "path \<Rightarrow> 'c option \<Rightarrow> 'c files \<Rightarrow> 'c files" where
  "writePath FilePath v fs = fs\<lparr>primary := v\<rparr>"
| "writePath TempFilePath v fs = fs\<lparr>temp := v\<rparr>"
| "writePath BackupFilePath v fs = fs\<lparr>backup := v\<rparr>"

definition existsSync :: "path \<Rightarrow> 'c files \<Rightarrow> bool" where
  "existsSync p fs = (readPath p fs \<noteq> None)"

definition writeFileSync :: "fs_op set \<Rightarrow> fs_op \<Rightarrow> path \<Rightarrow> 'c \<Rightarrow> 'c files \<Rightarrow> io_error + 'c files" where
  "writeFileSync faults site p c fs =
     (if site \<in> faults then Inl (IOFailure site) else Inr (writePath p (Some c) fs))"

text \<open>\<^verbatim>\<open>fs.renameSync(src, dst)\<close>: replaces \<open>dst\<close>; a missing source is \<^verbatim>\<open>ENOENT\<close>.\<close>

definition renameSync :: "fs_op set \<Rightarrow> fs_op \<Rightarrow> path \<Rightarrow> path \<Rightarrow> 'c files \<Rightarrow> io_error + 'c files" where
  "renameSync faults site src dst fs =
     (if site \<in> faults then Inl (IOFailure site)
      else (case readPath src fs of
              None \<Rightarrow> Inl (ENOENT site)
            | Some c \<Rightarrow> Inr (writePath src None (writePath dst (Some c) fs))))"

text \<open>
  The \<^verbatim>\<open>catch (error)\<close> block of \<^verbatim>\<open>writeCSV\<close>: restore the backup if one exists, swallow a
  failure of the restore (it is logged as FATAL), and rethrow the first error.
\<close>

definition restoreBackup :: "fs_op set \<Rightarrow> io_error \<Rightarrow> 'c files \<Rightarrow> (io_error + unit) \<times> 'c files" where
  "restoreBackup faults error fs =
     (case (if existsSync BackupFilePath fs
            then renameSync faults RestoreRename BackupFilePath FilePath fs
            else Inr fs) of
        Inl restoreError \<Rightarrow> (Inl error, fs)
      | Inr fs' \<Rightarrow> (Inl error, fs'))"

text \<open>
  \<^verbatim>\<open>CsvDatabase.writeCSV\<close> and \<^verbatim>\<open>TimerDatabase.writeCSV\<close> (the two bodies are the same):
  write the temporary file, rename the file to the backup if the file exists, rename the
  temporary file into place; on any throw run the handler.
\<close>

definition writeCSV :: "fs_op set \<Rightarrow> 'c \<Rightarrow> 'c files \<Rightarrow> (io_error + unit) \<times> 'c files" where
  "writeCSV faults csvString fs =
     (case writeFileSync faults WriteTemp TempFilePath csvString fs of
        Inl error \<Rightarrow> restoreBackup faults error fs
      | Inr fs1 \<Rightarrow>
          (case (if existsSync FilePath fs1
                 then renameSync faults BackupRename FilePath BackupFilePath fs1
                 else Inr fs1) of
             Inl error \<Rightarrow> restoreBackup faults error fs1
           | Inr fs2 \<Rightarrow>
               (case renameSync faults InstallRename TempFilePath FilePath fs2 of
                  Inl error \<Rightarrow> restoreBackup faults error fs2
                | Inr fs3 \<Rightarrow> (Inr (), fs3))))"

text \<open>Example tables on disk: a table written once, and a table written twice (the second
  write left the first content in the backup path).\<close>

definition writtenOnce :: "string files" where
  "writtenOnce = \<lparr>primary = Some ''v1'', temp = None, backup = None\<rparr>"

definition writtenTwice :: "string files" where
  "writtenTwice = \<lparr>primary = Some ''v2'', temp = None, backup = Some ''v1''\<rparr>"

subsection \<open>Identifiers and the to-do table\<close>

text \<open>\<^verbatim>\<open>Math.max(...xs)\<close> on a non-empty argument list.\<close>

fun Math_max :: "int list \<Rightarrow> int" where
  "Math_max (x # xs) = fold max xs x"

text \<open>
  \<^verbatim>\<open>getNextId(data) { if (data.length === 0) return 1;
     return Math.max(...data.map((item) => item.id)) + 1; }\<close>,
  on the list of the ids of the rows.
\<close>

definition getNextId :: "int list \<Rightarrow> int" where
  "getNextId ids = (if ids = [] then 1 else Math_max ids + 1)"

record todo =
  todo_id :: int
  todo_date :: string
  todo_text :: string
  todo_done :: int
  todo_starred :: int
  todo_due_date :: "string option"
  todo_created_at :: string

text \<open>
  The table operations are modelled on the rows that \<^verbatim>\<open>readCSV\<close> returns and
  \<^verbatim>\<open>writeCSV\<close> stores (a write that succeeds). \<^verbatim>\<open>addTodo\<close> overwrites the id of the
  object it is given; it returns the id and the new table.
\<close>

definition addTodo :: "todo \<Rightarrow> todo list \<Rightarrow> int \<times> todo list" where
  "addTodo t todos =
     (let newId = getNextId (map todo_id todos)
      in (newId, todos @ [t\<lparr>todo_id := newId\<rparr>]))"

definition deleteTodo :: "int \<Rightarrow> todo list \<Rightarrow> bool \<times> todo list" where
  "deleteTodo i todos =
     (let filtered = filter (\<lambda>t. todo_id t \<noteq> i) todos
      in if length filtered = length todos then (False, todos) else (True, filtered))"

definition someTodo :: todo where
  "someTodo = \<lparr>todo_id = 0, todo_date = ''2025-01-01'', todo_text = ''Be awesome'',
     todo_done = 0, todo_starred = 1, todo_due_date = None,
     todo_created_at = ''2025-01-01T00:00:00.000Z''\<rparr>"

subsection \<open>Local calendar days\<close>

text \<open>
  The local calendar fields of a \<^verbatim>\<open>Date\<close>: \<^verbatim>\<open>getFullYear()\<close>, \<^verbatim>\<open>getMonth()\<close> (0 to 11)
  and \<^verbatim>\<open>getDate()\<close>. Which fields an instant has is decided by the time zone of the
  machine, a parameter of the model.
\<close>

record js_date =
  getFullYear :: int
  getMonth :: int
  getDate :: int

text \<open>\<^verbatim>\<open>String(n)\<close> for an integer, and \<^verbatim>\<open>padStart\<close>.\<close>

fun digitsOf :: "nat \<Rightarrow> string" where
  "digitsOf n =
     (if n < 10 then [char_of (48 + n)] else digitsOf (n div 10) @ [char_of (48 + n mod 10)])"

definition String_of :: "int \<Rightarrow> string" where
  "String_of n = (if n < 0 then CHR ''-'' # digitsOf (nat (- n)) else digitsOf (nat n))"

definition padStart :: "string \<Rightarrow> nat \<Rightarrow> char \<Rightarrow> string" where
  "padStart s len c = replicate (len - length s) c @ s"

text \<open>\<^verbatim>\<open>pad(n, len = 2) { return String(n).padStart(len, "0"); }\<close>\<close>

definition pad :: "int \<Rightarrow> string" where
  "pad n = padStart (String_of n) 2 (CHR ''0'')"

text \<open>\<^verbatim>\<open>localDateString(d)\<close>: year, month + 1 and day of the local calendar.\<close>

definition localDateString :: "js_date \<Rightarrow> string" where
  "localDateString d =
     (let year = getFullYear d; month = pad (getMonth d + 1); day = pad (getDate d)
      in String_of year @ ''-'' @ month @ ''-'' @ day)"

text \<open>The clock of one call: what \<^verbatim>\<open>new Date()\<close> gives in local fields and as
  \<^verbatim>\<open>toISOString()\<close>.\<close>

record clock =
  newDate :: js_date
  toISOString :: string

definition newYear2025 :: clock where
  "newYear2025 = \<lparr>newDate = \<lparr>getFullYear = 2025, getMonth = 0, getDate = 1\<rparr>,
     toISOString = ''2025-01-01T08:00:00.000Z''\<rparr>"

subsection \<open>Sorting\<close>

text \<open>
  \<^verbatim>\<open>Array.prototype.sort(cmp)\<close> is stable; with a comparator that is a consistent order its
  result is the stable insertion sort: an element goes before the first element it does
  not compare greater than.
\<close>

fun insort_cmp :: "('a \<Rightarrow> 'a \<Rightarrow> int) \<Rightarrow> 'a \<Rightarrow> 'a list \<Rightarrow> 'a list" where
  "insort_cmp cmp x [] = [x]"
| "insort_cmp cmp x (y # ys) = (if cmp x y \<le> 0 then x # y # ys else y # insort_cmp cmp x ys)"

definition sort_cmp :: "('a \<Rightarrow> 'a \<Rightarrow> int) \<Rightarrow> 'a list \<Rightarrow> 'a list" where
  "sort_cmp cmp xs = foldr (insort_cmp cmp) xs []"

subsection \<open>The timer tables\<close>

record timerData =
  td_id :: int
  td_subject :: string
  td_date :: string
  td_total_minutes :: int
  td_last_updated :: string

record hiddenSubject =
  hs_id :: int
  hs_subject :: string
  hs_hidden_at :: string

text \<open>The two files of \<^verbatim>\<open>TimerDatabase\<close>: \<^verbatim>\<open>timer_data.csv\<close> and
  \<^verbatim>\<open>hidden_subjects.csv\<close>, as the rows \<^verbatim>\<open>readCSV\<close> returns.\<close>

record timerDb =
  timer_data :: "timerData list"
  hidden_subjects :: "hiddenSubject list"

definition emptyDb :: timerDb where
  "emptyDb = \<lparr>timer_data = [], hidden_subjects = []\<rparr>"

definition getCurrentLocalDate :: "clock \<Rightarrow> string" where
  "getCurrentLocalDate clk = localDateString (newDate clk)"

text \<open>\<^verbatim>\<open>find\<close> returns the row object itself, and the code assigns to its fields: the
  first row that matches is replaced in the table.\<close>

fun updateFirst :: "('a \<Rightarrow> bool) \<Rightarrow> ('a \<Rightarrow> 'a) \<Rightarrow> 'a list \<Rightarrow> 'a list" where
  "updateFirst P f [] = []"
| "updateFirst P f (x # xs) = (if P x then f x # xs else x # updateFirst P f xs)"

text \<open>
  \<^verbatim>\<open>addOrUpdateTimerData(subject, date?, minutesToAdd = 1)\<close>. The default of
  \<^verbatim>\<open>minutesToAdd\<close> applies to a missing argument; \<^verbatim>\<open>date || getCurrentLocalDate()\<close>
  takes the current day for a missing and for an empty date.
\<close>

definition addOrUpdateTimerData ::
  "clock \<Rightarrow> string \<Rightarrow> string option \<Rightarrow> int option \<Rightarrow> timerData list \<Rightarrow> timerData \<times> timerData list" where
  "addOrUpdateTimerData clk subject date minutesArg timerData =
     (let minutesToAdd = (case minutesArg of None \<Rightarrow> 1 | Some m \<Rightarrow> m);
          normalizedSubject = normalizeSubject subject;
          actualDate = (case date of
                          None \<Rightarrow> getCurrentLocalDate clk
                        | Some d \<Rightarrow> if d = [] then getCurrentLocalDate clk else d);
          matches = (\<lambda>entry. normalizeSubject (td_subject entry) = normalizedSubject
                               \<and> td_date entry = actualDate)
      in case find matches timerData of
           Some existingEntry \<Rightarrow>
             (let bump = (\<lambda>e. e\<lparr>td_total_minutes := td_total_minutes e + minutesToAdd,
                                  td_last_updated := toISOString clk\<rparr>)
              in (bump existingEntry, updateFirst matches bump timerData))
         | None \<Rightarrow>
             (let newEntry = \<lparr>td_id = getNextId (map td_id timerData),
                               td_subject = normalizedSubject, td_date = actualDate,
                               td_total_minutes = minutesToAdd,
                               td_last_updated = toISOString clk\<rparr>
              in (newEntry, timerData @ [newEntry])))"

text \<open>The rows of one normalized (subject, date) key.\<close>

definition entriesFor :: "string \<Rightarrow> string \<Rightarrow> timerData list \<Rightarrow> timerData list" where
  "entriesFor subject date timerData =
     filter (\<lambda>entry. normalizeSubject (td_subject entry) = subject \<and> td_date entry = date) timerData"

definition timerKey :: "timerData \<Rightarrow> string \<times> string" where
  "timerKey entry = (normalizeSubject (td_subject entry), td_date entry)"

text \<open>The minutes the table holds for a normalized (subject, date) key.\<close>

definition keyMinutes :: "string \<Rightarrow> string \<Rightarrow> timerData list \<Rightarrow> int" where
  "keyMinutes subject date timerData =
     sum_list (map td_total_minutes (entriesFor subject date timerData))"

definition hideSubject :: "clock \<Rightarrow> string \<Rightarrow> timerDb \<Rightarrow> bool \<times> timerDb" where
  "hideSubject clk subject db =
     (let normalizedSubject = normalizeSubject subject;
          hiddenSubjects = hidden_subjects db
      in if list_ex (\<lambda>hs. hs_subject hs = normalizedSubject) hiddenSubjects then (False, db)
         else (True, db\<lparr>hidden_subjects := hiddenSubjects @
                 [\<lparr>hs_id = getNextId (map hs_id hiddenSubjects), hs_subject = normalizedSubject,
                   hs_hidden_at = toISOString clk\<rparr>]\<rparr>))"

text \<open>
  \<^verbatim>\<open>deleteSubjectCompletely(subject)\<close>: each table is rewritten only if the filter removed
  a row; \<^verbatim>\<open>deleted\<close> is set in the branch of the timer table only.
\<close>

definition deleteSubjectCompletely :: "string \<Rightarrow> timerDb \<Rightarrow> bool \<times> timerDb" where
  "deleteSubjectCompletely subject db =
     (let normalizedSubject = normalizeSubject subject;
          timerData = timer_data db;
          filteredTimerData = filter (\<lambda>entry. td_subject entry \<noteq> normalizedSubject) timerData;
          hiddenSubjects = hidden_subjects db;
          filteredHiddenSubjects = filter (\<lambda>hs. hs_subject hs \<noteq> normalizedSubject) hiddenSubjects;
          deleted = (length filteredTimerData < length timerData);
          db1 = (if length filteredTimerData < length timerData
                 then db\<lparr>timer_data := filteredTimerData\<rparr> else db);
          db2 = (if length filteredHiddenSubjects < length hiddenSubjects
                 then db1\<lparr>hidden_subjects := filteredHiddenSubjects\<rparr> else db1)
      in (deleted, db2))"

text \<open>\<^verbatim>\<open>getTimerDataByDateRange\<close>: JavaScript compares strings by code units, the
  lexicographic order of \<^typ>\<open>string\<close>.\<close>

definition getTimerDataByDateRange :: "string \<Rightarrow> string \<Rightarrow> timerData list \<Rightarrow> timerData list" where
  "getTimerDataByDateRange startDate endDate allData =
     filter (\<lambda>entry. td_date entry \<ge> startDate \<and> td_date entry \<le> endDate) allData"

text \<open>The head of the three range queries: \<^verbatim>\<open>if (startDate && endDate) data =
  getTimerDataByDateRange(startDate, endDate); else data = getAllTimerData();\<close>\<close>

definition rangeData :: "string option \<Rightarrow> string option \<Rightarrow> timerData list \<Rightarrow> timerData list" where
  "rangeData startDate endDate allData =
     (case startDate of
        None \<Rightarrow> allData
      | Some s \<Rightarrow>
          (case endDate of
             None \<Rightarrow> allData
           | Some e \<Rightarrow> if s \<noteq> [] \<and> e \<noteq> [] then getTimerDataByDateRange s e allData else allData))"

text \<open>A \<^verbatim>\<open>Map\<close> keeps its keys in insertion order and \<^verbatim>\<open>set\<close> keeps the place of a key
  that is present: an association list with \<^const>\<open>AList.update\<close>.\<close>

definition addToTotals :: "timerData \<Rightarrow> (string \<times> int) list \<Rightarrow> (string \<times> int) list" where
  "addToTotals entry totals =
     (let current = (case map_of totals (td_subject entry) of None \<Rightarrow> 0 | Some v \<Rightarrow> v)
      in AList.update (td_subject entry) (current + td_total_minutes entry) totals)"

definition getSubjectTotalsByDateRange ::
  "string option \<Rightarrow> string option \<Rightarrow> timerData list \<Rightarrow> (string \<times> int) list" where
  "getSubjectTotalsByDateRange startDate endDate allData =
     (let data = rangeData startDate endDate allData;
          totals = fold addToTotals data []
      in sort_cmp (\<lambda>a b. snd b - snd a) totals)"

record subjectDateRow =
  sd_subject :: string
  sd_date :: string
  sd_total_minutes :: int

text \<open>\<^verbatim>\<open>getSubjectDateAggregatedData\<close>; \<^verbatim>\<open>localeCompare\<close> depends on the locale of the
  machine and is a parameter.\<close>

definition getSubjectDateAggregatedData ::
  "(string \<Rightarrow> string \<Rightarrow> int) \<Rightarrow> string option \<Rightarrow> string option \<Rightarrow> timerData list \<Rightarrow> subjectDateRow list" where
  "getSubjectDateAggregatedData localeCompare startDate endDate allData =
     (let data = rangeData startDate endDate allData
      in sort_cmp (\<lambda>a b. localeCompare (sd_date b) (sd_date a))
           (map (\<lambda>entry. \<lparr>sd_subject = td_subject entry, sd_date = td_date entry,
                            sd_total_minutes = td_total_minutes entry\<rparr>) data))"

text \<open>The total a list of \<open>(subject, total_minutes)\<close> rows reports for a subject: the row of
  that subject, zero when there is none.\<close>

definition totalFor :: "string \<Rightarrow> (string \<times> int) list \<Rightarrow> int" where
  "totalFor subject totals = (case map_of totals subject of None \<Rightarrow> 0 | Some v \<Rightarrow> v)"

text \<open>A comparator for the examples: code unit order.\<close>

definition codeUnitCompare :: "string \<Rightarrow> string \<Rightarrow> int" where
  "codeUnitCompare a b = (if a < b then - 1 else if b < a then 1 else 0)"

definition mathEntry :: "int \<Rightarrow> string \<Rightarrow> string \<Rightarrow> int \<Rightarrow> timerData" where
  "mathEntry i subject date minutes =
     \<lparr>td_id = i, td_subject = subject, td_date = date, td_total_minutes = minutes,
      td_last_updated = ''2025-01-01T08:00:00.000Z''\<rparr>"

definition sampleData :: "timerData list" where
  "sampleData =
     [mathEntry 1 ''math'' ''2025-01-01'' 30, mathEntry 2 ''art'' ''2025-01-02'' 50,
      mathEntry 3 ''math'' ''2025-01-03'' 15, mathEntry 4 ''math'' ''2025-02-01'' 7]"

subsection \<open>The JSON store: subject totals, daily stats, sessions\<close>

datatype error = Error string

record dailyStat =
  stat_date :: string
  stat_subject :: string
  timeInSubject :: int
  breakMinutes :: int
  pauseMinutes :: int

record sessionRow =
  session_id :: string
  subjectId :: "int option"
  subjectName :: string
  startTime :: int
  endTime :: "int option"
  durationMinutes :: "int option"
  pausedSeconds :: "int option"

text \<open>The keys of the store that the functions below read and write. \<^verbatim>\<open>subjectTotals\<close> is
  an object from subject to \<^verbatim>\<open>{ totalTime }\<close>: an association list of its own properties.
  Nothing below depends on the order of the list (an object enumerates integer-like keys
  first).\<close>

record store =
  subjectTotals :: "(string \<times> int) list"
  dailyStats :: "dailyStat list"
  sessions :: "sessionRow list"

definition emptyStore :: store where
  "emptyStore = \<lparr>subjectTotals = [], dailyStats = [], sessions = []\<rparr>"

text \<open>The machine: \<^verbatim>\<open>Date.now()\<close>, and the local calendar fields of \<^verbatim>\<open>new Date(ms)\<close>.\<close>

record machine =
  dateNow :: int
  localFields :: "int \<Rightarrow> js_date"

text \<open>An example machine on UTC; the calendar is right for the first 31 days after the
  epoch.\<close>

definition january1970 :: "int \<Rightarrow> js_date" where
  "january1970 ms = \<lparr>getFullYear = 1970, getMonth = 0, getDate = 1 + ms div 86400000\<rparr>"

definition utcMachine :: machine where
  "utcMachine = \<lparr>dateNow = 3600000, localFields = january1970\<rparr>"

text \<open>\<^verbatim>\<open>findIndex\<close>: \<open>None\<close> is \<^verbatim>\<open>-1\<close>.\<close>

fun findIndex :: "('a \<Rightarrow> bool) \<Rightarrow> 'a list \<Rightarrow> nat option" where
  "findIndex P [] = None"
| "findIndex P (x # xs) = (if P x then Some 0 else map_option Suc (findIndex P xs))"

definition totalTime :: "string \<Rightarrow> store \<Rightarrow> int" where
  "totalTime key st = (case map_of (subjectTotals st) key of None \<Rightarrow> 0 | Some v \<Rightarrow> v)"

text \<open>
  \<^verbatim>\<open>subjectTotals\<close> is a plain object, read with \<^verbatim>\<open>totals[key]\<close>. For a key that is
  not a property of its own the object answers with what it inherits from
  \<^verbatim>\<open>Object.prototype\<close>; of the lower-case keys these are \<^verbatim>\<open>constructor\<close> and
  \<^verbatim>\<open>__proto__\<close>, both truthy objects.
\<close>

definition inheritedKey :: "string \<Rightarrow> bool" where
  "inheritedKey key = (key = ''constructor'' \<or> key = ''__proto__'')"

text \<open>
  \<^verbatim>\<open>incrementSubjectTotal(subjectName, minutes)\<close>: throws on an empty key, before it
  writes; otherwise adds \<^verbatim>\<open>Math.max(0, Math.floor(minutes || 0))\<close> to the total of the key,
  which starts at 0 when \<^verbatim>\<open>!totals[key]\<close>. For an inherited key with no total of its own
  \<^verbatim>\<open>totals[key]\<close> is the inherited object: no total is created, the addition goes to that
  object, and the store is written back as it was; the result is then not a total
  (\<open>None\<close>).
\<close>

definition incrementSubjectTotal :: "string \<Rightarrow> int \<Rightarrow> store \<Rightarrow> (error + int option) \<times> store" where
  "incrementSubjectTotal name minutes st =
     (let key = toLowerCase (trim name)
      in if key = [] then (Inl (Error ''Invalid subject name''), st)
         else (let totals = subjectTotals st
               in case map_of totals key of
                    None \<Rightarrow>
                      (if inheritedKey key then (Inr None, st)
                       else (Inr (Some (max 0 minutes)),
                             st\<lparr>subjectTotals := AList.update key (max 0 minutes) totals\<rparr>))
                  | Some current \<Rightarrow>
                      (Inr (Some (current + max 0 minutes)),
                       st\<lparr>subjectTotals := AList.update key (current + max 0 minutes) totals\<rparr>)))"

text \<open>
  \<^verbatim>\<open>addDailyStat(stat)\<close>: the normalized row is pushed and stored first, then
  \<^verbatim>\<open>incrementSubjectTotal\<close> is called, which may throw.
\<close>

definition addDailyStat :: "dailyStat \<Rightarrow> store \<Rightarrow> (error + dailyStat) \<times> store" where
  "addDailyStat stat st =
     (let s = \<lparr>stat_date = stat_date stat,
               stat_subject = toLowerCase (trim (stat_subject stat)),
               timeInSubject = max 0 (timeInSubject stat),
               breakMinutes = max 0 (breakMinutes stat),
               pauseMinutes = max 0 (pauseMinutes stat)\<rparr>;
          st1 = st\<lparr>dailyStats := dailyStats st @ [s]\<rparr>
      in case incrementSubjectTotal (stat_subject s) (timeInSubject s) st1 of
           (Inl e, st2) \<Rightarrow> (Inl e, st2)
         | (Inr t, st2) \<Rightarrow> (Inr s, st2))"

record increments =
  inc_timeInSubject :: "int option"
  inc_breakMinutes :: "int option"
  inc_pauseMinutes :: "int option"

definition orZero :: "int option \<Rightarrow> int" where
  "orZero v = (case v of None \<Rightarrow> 0 | Some n \<Rightarrow> n)"

text \<open>
  \<^verbatim>\<open>updateDailyStat(date, subject, increments)\<close>: validates before it writes; adds the
  clamped increments to the first row of the key, or pushes a new row; then adds to the
  subject total what was added to \<^verbatim>\<open>timeInSubject\<close>, if it is positive.
\<close>

definition updateDailyStat ::
  "string \<Rightarrow> string \<Rightarrow> increments \<Rightarrow> store \<Rightarrow> (error + dailyStat) \<times> store" where
  "updateDailyStat date subject incs st =
     (let key = toLowerCase (trim subject)
      in if date = [] \<or> key = []
         then (Inl (Error ''date and subject are required for updateDailyStat''), st)
         else
          (let safeTime = max 0 (orZero (inc_timeInSubject incs));
               safeBreak = max 0 (orZero (inc_breakMinutes incs));
               safePause = max 0 (orZero (inc_pauseMinutes incs));
               daily = dailyStats st
           in case findIndex (\<lambda>d. stat_date d = date \<and> stat_subject d = key) daily of
                None \<Rightarrow>
                  (let newRow = \<lparr>stat_date = date, stat_subject = key, timeInSubject = safeTime,
                                  breakMinutes = safeBreak, pauseMinutes = safePause\<rparr>;
                       st1 = st\<lparr>dailyStats := daily @ [newRow]\<rparr>
                   in if safeTime > 0
                      then (case incrementSubjectTotal key safeTime st1 of
                              (Inl e, st2) \<Rightarrow> (Inl e, st2)
                            | (Inr t, st2) \<Rightarrow> (Inr newRow, st2))
                      else (Inr newRow, st1))
              | Some idx \<Rightarrow>
                  (let old = daily ! idx;
                       beforeTime = timeInSubject old;
                       row = old\<lparr>timeInSubject := max 0 (timeInSubject old + safeTime),
                                 breakMinutes := max 0 (breakMinutes old + safeBreak),
                                 pauseMinutes := max 0 (pauseMinutes old + safePause)\<rparr>;
                       st1 = st\<lparr>dailyStats := daily[idx := row]\<rparr>;
                       delta = timeInSubject row - beforeTime
                   in if delta > 0
                      then (case incrementSubjectTotal key delta st1 of
                              (Inl e, st2) \<Rightarrow> (Inl e, st2)
                            | (Inr t, st2) \<Rightarrow> (Inr row, st2))
                      else (Inr row, st1))))"

text \<open>\<^verbatim>\<open>startSessionInStore(subjectName, subjectId?)\<close>; the random id is a parameter.\<close>

definition startSessionInStore ::
  "machine \<Rightarrow> string \<Rightarrow> string \<Rightarrow> int option \<Rightarrow> store \<Rightarrow> sessionRow \<times> store" where
  "startSessionInStore m newId subjectNameArg subjectIdArg st =
     (let row = \<lparr>session_id = newId, subjectId = subjectIdArg,
                 subjectName = trim (if subjectNameArg = [] then ''general'' else subjectNameArg),
                 startTime = dateNow m, endTime = None, durationMinutes = None,
                 pausedSeconds = None\<rparr>
      in (row, st\<lparr>sessions := sessions st @ [row]\<rparr>))"

text \<open>
  \<^verbatim>\<open>completeSessionInStore(sessionId, durationMinutes, pausedSeconds)\<close>: throws
  \<^verbatim>\<open>session not found\<close> before it writes; otherwise stores the finished row and folds its
  duration into the daily stat of the local day of its start.
\<close>

definition completeSessionInStore ::
  "machine \<Rightarrow> string \<Rightarrow> int \<Rightarrow> int \<Rightarrow> store \<Rightarrow> (error + sessionRow) \<times> store" where
  "completeSessionInStore m sessionId durationArg pausedArg st =
     (let arr = sessions st
      in case findIndex (\<lambda>r. session_id r = sessionId) arr of
           None \<Rightarrow> (Inl (Error ''session not found''), st)
         | Some idx \<Rightarrow>
             (let row = (arr ! idx)\<lparr>endTime := Some (dateNow m),
                                     durationMinutes := Some (max 0 durationArg),
                                     pausedSeconds := Some (max 0 pausedArg)\<rparr>;
                  st1 = st\<lparr>sessions := arr[idx := row]\<rparr>;
                  date = localDateString (localFields m (startTime row))
              in case updateDailyStat date (subjectName row)
                        \<lparr>inc_timeInSubject = Some (orZero (durationMinutes row)),
                         inc_breakMinutes = Some 0, inc_pauseMinutes = Some 0\<rparr> st1 of
                   (Inl e, st2) \<Rightarrow> (Inl e, st2)
                 | (Inr d, st2) \<Rightarrow> (Inr row, st2)))"

text \<open>\<^verbatim>\<open>completeSession\<close> of \<^verbatim>\<open>timer.ts\<close> passes the call on.\<close>

definition completeSession ::
  "machine \<Rightarrow> string \<Rightarrow> int \<Rightarrow> int \<Rightarrow> store \<Rightarrow> (error + sessionRow) \<times> store" where
  "completeSession m sessionId durationArg pausedArg st =
     completeSessionInStore m sessionId durationArg pausedArg st"

text \<open>
  The handler of the channel \<^verbatim>\<open>sessions:complete\<close>: \<^verbatim>\<open>false\<close> for a sender that is not
  trusted and for any error thrown by \<^verbatim>\<open>completeSession\<close>, \<^verbatim>\<open>true\<close> otherwise.
\<close>

definition sessions_complete ::
  "bool \<Rightarrow> machine \<Rightarrow> string \<Rightarrow> int \<Rightarrow> int \<Rightarrow> store \<Rightarrow> bool \<times> store" where
  "sessions_complete senderValid m sessionId durationArg pausedArg st =
     (if \<not> senderValid then (False, st)
      else (case completeSession m sessionId durationArg pausedArg st of
              (Inl e, st1) \<Rightarrow> (False, st1)
            | (Inr row, st1) \<Rightarrow> (True, st1)))"

text \<open>
  \<^verbatim>\<open>updateSessionProgress(sessionId, activeSeconds, pausedSeconds)\<close>: throws on an empty
  id, returns \<^verbatim>\<open>null\<close> (here \<open>None\<close>) when no session has the id, otherwise overwrites the
  two fields of the first session with the id. \<^verbatim>\<open>Math.floor(x / 60)\<close> is \<open>x div 60\<close>.
\<close>

definition updateSessionProgress ::
  "string \<Rightarrow> int \<Rightarrow> int \<Rightarrow> store \<Rightarrow> (error + sessionRow option) \<times> store" where
  "updateSessionProgress sessionId activeSeconds pausedArg st =
     (if sessionId = [] then (Inl (Error ''sessionId required''), st)
      else (let arr = sessions st
            in case findIndex (\<lambda>r. session_id r = sessionId) arr of
                 None \<Rightarrow> (Inr None, st)
               | Some idx \<Rightarrow>
                   (let row = (arr ! idx)\<lparr>durationMinutes := Some (max 0 (activeSeconds div 60)),
                                           pausedSeconds := Some (max 0 pausedArg)\<rparr>
                    in (Inr (Some row), st\<lparr>sessions := arr[idx := row]\<rparr>))))"

definition mathSession :: sessionRow where
  "mathSession = \<lparr>session_id = ''s_1_1'', subjectId = None, subjectName = ''Math'',
     startTime = 0, endTime = None, durationMinutes = None, pausedSeconds = None\<rparr>"

definition oneSession :: store where
  "oneSession = \<lparr>subjectTotals = [], dailyStats = [], sessions = [mathSession]\<rparr>"

definition blankStat :: dailyStat where
  "blankStat = \<lparr>stat_date = ''2025-01-01'', stat_subject = '' '', timeInSubject = 5,
     breakMinutes = 0, pauseMinutes = 0\<rparr>"

text \<open>
  The daily minutes of a (date, subject) key and of a subject: the sums of
  \<^verbatim>\<open>timeInSubject\<close> over the rows of the key and of the subject.
\<close>

definition keySum :: "string \<Rightarrow> string \<Rightarrow> store \<Rightarrow> int" where
  "keySum date subject st =
     sum_list (map timeInSubject
       (filter (\<lambda>d. stat_date d = date \<and> stat_subject d = subject) (dailyStats st)))"

definition subjectSum :: "string \<Rightarrow> store \<Rightarrow> int" where
  "subjectSum subject st =
     sum_list (map timeInSubject (filter (\<lambda>d. stat_subject d = subject) (dailyStats st)))"

text \<open>The calls that change daily stats: the increment API and session completion.\<close>

datatype store_op =
  UpdateDailyStat string string increments
| AddDailyStat dailyStat
| CompleteSession string int int

fun storeStep :: "machine \<Rightarrow> store_op \<Rightarrow> store \<Rightarrow> store" where
  "storeStep m (UpdateDailyStat date subject incs) st = snd (updateDailyStat date subject incs st)"
| "storeStep m (AddDailyStat stat) st = snd (addDailyStat stat st)"
| "storeStep m (CompleteSession sessionId durationArg pausedArg) st =
     snd (completeSessionInStore m sessionId durationArg pausedArg st)"

text \<open>
  Following the words of the invariant: the minutes one call applies to the key
  \<open>(date, subject)\<close>. A call that is rejected before it writes applies nothing; a completion
  applies the clamped duration to the local day of the start of the session and the
  normalized name of its subject.
\<close>

fun appliedTo :: "machine \<Rightarrow> string \<Rightarrow> string \<Rightarrow> store_op \<Rightarrow> store \<Rightarrow> int" where
  "appliedTo m date subject (UpdateDailyStat d s incs) st =
     (if d \<noteq> [] \<and> normalizeSubject s \<noteq> [] \<and> d = date \<and> normalizeSubject s = subject
      then max 0 (orZero (inc_timeInSubject incs)) else 0)"
| "appliedTo m date subject (AddDailyStat stat) st =
     (if stat_date stat = date \<and> normalizeSubject (stat_subject stat) = subject
      then max 0 (timeInSubject stat) else 0)"
| "appliedTo m date subject (CompleteSession sessionId durationArg pausedArg) st =
     (case findIndex (\<lambda>r. session_id r = sessionId) (sessions st) of
        None \<Rightarrow> 0
      | Some idx \<Rightarrow>
          (let row = sessions st ! idx;
               d = localDateString (localFields m (startTime row));
               s = normalizeSubject (subjectName row)
           in if d \<noteq> [] \<and> s \<noteq> [] \<and> d = date \<and> s = subject then max 0 durationArg else 0))"

fun ledger :: "machine \<Rightarrow> string \<Rightarrow> string \<Rightarrow> store_op list \<Rightarrow> store \<Rightarrow> int" where
  "ledger m date subject [] st = 0"
| "ledger m date subject (op # ops) st =
     appliedTo m date subject op st + ledger m date subject ops (storeStep m op st)"

definition rowsNonNegative :: "store \<Rightarrow> bool" where
  "rowsNonNegative st = list_all (\<lambda>d. 0 \<le> timeInSubject d) (dailyStats st)"

text \<open>The row a first increment of a key creates, the row an increment of an existing key
  leaves, and the increments a completion passes on.\<close>

definition rowOf :: "string \<Rightarrow> string \<Rightarrow> increments \<Rightarrow> dailyStat" where
  "rowOf date key incs = \<lparr>stat_date = date, stat_subject = key,
      timeInSubject = max 0 (orZero (inc_timeInSubject incs)),
      breakMinutes = max 0 (orZero (inc_breakMinutes incs)),
      pauseMinutes = max 0 (orZero (inc_pauseMinutes incs))\<rparr>"

definition bumped :: "dailyStat \<Rightarrow> increments \<Rightarrow> dailyStat" where
  "bumped old incs = old\<lparr>timeInSubject := max 0 (timeInSubject old + max 0 (orZero (inc_timeInSubject incs))),
      breakMinutes := max 0 (breakMinutes old + max 0 (orZero (inc_breakMinutes incs))),
      pauseMinutes := max 0 (pauseMinutes old + max 0 (orZero (inc_pauseMinutes incs)))\<rparr>"

definition completionIncs :: "int \<Rightarrow> increments" where
  "completionIncs durationArg = \<lparr>inc_timeInSubject = Some (max 0 durationArg),
      inc_breakMinutes = Some 0, inc_pauseMinutes = Some 0\<rparr>"

subsection \<open>Reminders\<close>

record reminder =
  reminder_id :: string
  reminder_title :: string
  reminder_body :: "string option"
  reminder_timestamp :: int

text \<open>
  \<^verbatim>\<open>reminders.json\<close> with its temporary and backup files. The file holds what
  \<^verbatim>\<open>saveReminders\<close> wrote: entries with numeric timestamps, which \<^verbatim>\<open>loadReminders\<close>
  returns as they are; a file that cannot be read loads as the empty list.
\<close>

definition loadReminders :: "reminder list files \<Rightarrow> reminder list" where
  "loadReminders fs = (case primary fs of None \<Rightarrow> [] | Some list \<Rightarrow> list)"

text \<open>\<^verbatim>\<open>saveReminders(list)\<close> has the body of \<^verbatim>\<open>writeCSV\<close>, on \<^verbatim>\<open>reminders.json\<close>.\<close>

definition saveReminders ::
  "fs_op set \<Rightarrow> reminder list \<Rightarrow> reminder list files \<Rightarrow> (io_error + unit) \<times> reminder list files" where
  "saveReminders faults list fs = writeCSV faults list fs"

text \<open>
  One run of \<^verbatim>\<open>check\<close> at the time \<open>now\<close>: the reminders passed to
  \<^verbatim>\<open>showNotification\<close>, in that order, and the files afterwards. An error thrown by
  \<^verbatim>\<open>saveReminders\<close> is caught and logged.
\<close>

definition check :: "fs_op set \<Rightarrow> int \<Rightarrow> reminder list files \<Rightarrow> reminder list \<times> reminder list files" where
  "check faults now fs =
     (let list = loadReminders fs
      in if list = [] then ([], fs)
         else (let due = filter (\<lambda>r. reminder_timestamp r \<le> now) list
               in if due = [] then ([], fs)
                  else (let remaining = filter (\<lambda>r. reminder_timestamp r > now) list
                        in (due, snd (saveReminders faults remaining fs)))))"

text \<open>A sequence of ticks, each with the faults of its save and its time: what each tick
  fired, and the files at the end.\<close>

fun ticks ::
  "(fs_op set \<times> int) list \<Rightarrow> reminder list files \<Rightarrow> reminder list list \<times> reminder list files" where
  "ticks [] fs = ([], fs)"
| "ticks ((faults, now) # rest) fs =
     (let (fired, fs1) = check faults now fs;
          (firedRest, fs2) = ticks rest fs1
      in (fired # firedRest, fs2))"

text \<open>
  The handler of \<^verbatim>\<open>reminder:add\<close>. \<open>normalized\<close> is what \<^verbatim>\<open>normalizeTimestamp\<close> makes
  of the timestamp given. The new item is pushed and the list is sorted by timestamp.
\<close>

datatype add_error = InvalidTimestamp | SaveFailed io_error

definition reminder_add ::
  "fs_op set \<Rightarrow> string \<Rightarrow> string \<Rightarrow> string option \<Rightarrow> int option \<Rightarrow> reminder list files
     \<Rightarrow> (add_error + reminder) \<times> reminder list files" where
  "reminder_add faults rid title body normalized fs =
     (let list = loadReminders fs
      in case normalized of
           None \<Rightarrow> (Inl InvalidTimestamp, fs)
         | Some ts \<Rightarrow>
             (let item = \<lparr>reminder_id = rid, reminder_title = title,
                          reminder_body = (if body = Some [] then None else body),
                          reminder_timestamp = ts\<rparr>;
                  sortedList = sort_cmp (\<lambda>a b. reminder_timestamp a - reminder_timestamp b)
                                 (list @ [item])
              in case saveReminders faults sortedList fs of
                   (Inl e, fs1) \<Rightarrow> (Inl (SaveFailed e), fs1)
                 | (Inr u, fs1) \<Rightarrow> (Inr item, fs1)))"

text \<open>The handler of \<^verbatim>\<open>reminder:remove\<close>.\<close>

definition reminder_remove :: "fs_op set \<Rightarrow> string \<Rightarrow> reminder list files \<Rightarrow> bool \<times> reminder list files" where
  "reminder_remove faults rid fs =
     (let list = filter (\<lambda>r. reminder_id r \<noteq> rid) (loadReminders fs)
      in case saveReminders faults list fs of
           (Inl e, fs1) \<Rightarrow> (False, fs1)
         | (Inr u, fs1) \<Rightarrow> (True, fs1))"

text \<open>Everything that writes \<^verbatim>\<open>reminders.json\<close>, and the file that
  \<^verbatim>\<open>ensureRemindersFilePath\<close> creates.\<close>

datatype reminder_op =
  Add "fs_op set" string string "string option" "int option"
| Remove "fs_op set" string
| Tick "fs_op set" int

fun applyOp :: "reminder_op \<Rightarrow> reminder list files \<Rightarrow> reminder list files" where
  "applyOp (Add faults rid title body normalized) fs =
     snd (reminder_add faults rid title body normalized fs)"
| "applyOp (Remove faults rid) fs = snd (reminder_remove faults rid fs)"
| "applyOp (Tick faults now) fs = snd (check faults now fs)"

definition newRemindersFile :: "reminder list files" where
  "newRemindersFile = \<lparr>primary = Some [], temp = None, backup = None\<rparr>"

definition ascending :: "reminder list \<Rightarrow> bool" where
  "ascending list = sorted (map reminder_timestamp list)"

definition standUp :: reminder where
  "standUp = \<lparr>reminder_id = ''r1'', reminder_title = ''Stand up'', reminder_body = None,
     reminder_timestamp = 1000\<rparr>"

definition callHome :: reminder where
  "callHome = \<lparr>reminder_id = ''r2'', reminder_title = ''Call home'', reminder_body = None,
     reminder_timestamp = 5000\<rparr>"

definition twoReminders :: "reminder list files" where
  "twoReminders = \<lparr>primary = Some [standUp, callHome], temp = None, backup = None\<rparr>"

text \<open>All three files hold lists in ascending order of timestamp.\<close>

definition slotsAscending :: "reminder list files \<Rightarrow> bool" where
  "slotsAscending fs = (ascending (loadReminders fs)
     \<and> ascending (case temp fs of None \<Rightarrow> [] | Some l \<Rightarrow> l)
     \<and> ascending (case backup fs of None \<Rightarrow> [] | Some l \<Rightarrow> l))"

section \<open>Properties\<close>

subsection \<open>Atomic write\<close>

lemma restoreBackup_propagates: "fst (restoreBackup faults error fs) = Inl error"
  by (simp add: restoreBackup_def split: sum.splits)

lemma restoreBackup_no_backup:
  "backup fs = None \<Longrightarrow> snd (restoreBackup faults error fs) = fs"
  by (simp add: restoreBackup_def existsSync_def)

lemma restoreBackup_restores:
  "backup fs = Some c \<Longrightarrow> RestoreRename \<notin> faults \<Longrightarrow>
   primary (snd (restoreBackup faults error fs)) = Some c"
  by (simp add: restoreBackup_def existsSync_def renameSync_def)

text \<open>
  What the handler achieves. Let the temporary file be written and let the backup rename
  (of an existing file) or the final rename fail. Then the first failure is propagated to
  the caller. The table file has its pre-write content afterwards if this write had moved
  the file to the backup path and the restoring rename succeeds, or if no backup file
  exists when the handler runs.
\<close>

lemma writeCSV_failure_after_temp:
  assumes "WriteTemp \<notin> faults"
    and "(primary fs \<noteq> None \<and> BackupRename \<in> faults) \<or> InstallRename \<in> faults"
  shows "fst (writeCSV faults d fs) =
           Inl (IOFailure (if primary fs \<noteq> None \<and> BackupRename \<in> faults
                           then BackupRename else InstallRename))
         \<and> ((primary fs \<noteq> None \<and> BackupRename \<notin> faults \<and> RestoreRename \<notin> faults)
              \<or> (backup fs = None \<and> (primary fs = None \<or> BackupRename \<in> faults))
             \<longrightarrow> primary (snd (writeCSV faults d fs)) = primary fs)"
proof (cases "primary fs")
  case None
  with assms have inst: "InstallRename \<in> faults" by simp
  from None assms(1) inst show ?thesis
    by (simp add: writeCSV_def writeFileSync_def renameSync_def existsSync_def
        restoreBackup_propagates restoreBackup_no_backup)
next
  case (Some old)
  show ?thesis
  proof (cases "BackupRename \<in> faults")
    case True
    with Some assms(1) show ?thesis
      by (simp add: writeCSV_def writeFileSync_def renameSync_def existsSync_def
          restoreBackup_propagates restoreBackup_no_backup)
  next
    case False
    with assms(2) have inst: "InstallRename \<in> faults" by simp
    from Some False inst assms(1) show ?thesis
      by (simp add: writeCSV_def writeFileSync_def renameSync_def existsSync_def
          restoreBackup_propagates restoreBackup_restores)
  qed
qed

lemma writeCSV_final_rename_fails:
  "fst (writeCSV {InstallRename} ''v2'' writtenOnce) = Inl (IOFailure InstallRename)
   \<and> primary (snd (writeCSV {InstallRename} ''v2'' writtenOnce)) = Some ''v1''
   \<and> primary writtenOnce = Some ''v1''"
  using writeCSV_failure_after_temp [of "{InstallRename}" writtenOnce "''v2''"]
  by (simp add: writtenOnce_def)

text \<open>
  Two faults in one write, the final rename and the rename that restores the backup: the
  handler logs FATAL and rethrows the first error, and the table file is gone. This is the
  case the specification sets apart as fatal.
\<close>

lemma writeCSV_restore_can_fail:
  "writeCSV {InstallRename, RestoreRename} ''v2'' writtenOnce =
     (Inl (IOFailure InstallRename), \<lparr>primary = None, temp = Some ''v2'', backup = Some ''v1''\<rparr>)
   \<and> primary writtenOnce = Some ''v1''"
  by (simp add: writeCSV_def writtenOnce_def writeFileSync_def renameSync_def existsSync_def
      restoreBackup_def)

text \<open>
  C1 at the failing input. A table that was written twice without a fault has the content
  of the first write in its backup path, since no write removes the backup. In the third
  write a single call fails, the rename of the file to the backup path; the file is
  untouched at that moment. The handler finds the older backup and renames it over the
  file: the table file then holds the content of the first write and not its pre-write
  content; the failure is propagated.
\<close>

theorem writeCSV_stale_backup:
  "snd (writeCSV {} ''v2'' writtenOnce) = writtenTwice
   \<and> primary writtenTwice = Some ''v2''
   \<and> writeCSV {BackupRename} ''v3'' writtenTwice =
       (Inl (IOFailure BackupRename),
        \<lparr>primary = Some ''v1'', temp = Some ''v3'', backup = None\<rparr>)"
  by (simp add: writeCSV_def writtenOnce_def writtenTwice_def writeFileSync_def renameSync_def
      existsSync_def restoreBackup_def)

subsection \<open>Identifiers\<close>

lemma Math_max_Max: "ids \<noteq> [] \<Longrightarrow> Math_max ids = Max (set ids)"
proof (cases ids)
  case Nil
  assume "ids \<noteq> []"
  with Nil show ?thesis by simp
next
  case (Cons a list)
  then show ?thesis using Max.set_eq_fold [of a list] by simp
qed

text \<open>
  C2, as stated, fails: the next id is computed from the rows that are in the table, so the
  id of a deleted row that was the greatest comes back. Here a to-do is added to the empty
  table (id 1), deleted, and the next to-do gets id 1 again.
\<close>

theorem addTodo_reuses_deleted_id:
  "fst (addTodo someTodo []) = 1
   \<and> deleteTodo 1 (snd (addTodo someTodo [])) = (True, [])
   \<and> fst (addTodo someTodo (snd (deleteTodo 1 (snd (addTodo someTodo []))))) = 1"
  by (simp add: addTodo_def deleteTodo_def getNextId_def someTodo_def)

lemma addTodo_fresh:
  "fst (addTodo t todos) = (if todos = [] then 1 else Max (todo_id ` set todos) + 1)
   \<and> (\<forall>u \<in> set todos. todo_id u < fst (addTodo t todos))
   \<and> snd (addTodo t todos) = todos @ [t\<lparr>todo_id := fst (addTodo t todos)\<rparr>]"
proof (cases "todos = []")
  case True
  then show ?thesis by (simp add: addTodo_def getNextId_def)
next
  case False
  then have ne: "map todo_id todos \<noteq> []" by simp
  have m: "Math_max (map todo_id todos) = Max (todo_id ` set todos)"
    using Math_max_Max [OF ne] by simp
  have "\<forall>u \<in> set todos. todo_id u \<le> Max (todo_id ` set todos)"
    by simp
  then have "\<forall>u \<in> set todos. todo_id u < Max (todo_id ` set todos) + 1"
    by fastforce
  with False m show ?thesis
    by (simp add: addTodo_def getNextId_def Let_def)
qed

text \<open>
  C2, amended: inserting a record gives it the id max(existing ids) + 1, or 1 when the
  table is empty; that id is greater than the id of every row in the table, and the record
  is appended with it. Ids are not remembered after deletion: when the record just
  inserted is deleted, the table is as it was before and the next insert gets the same id.
\<close>

theorem addTodo_next_id:
  "fst (addTodo t todos) = (if todos = [] then 1 else Max (todo_id ` set todos) + 1)
   \<and> (\<forall>u \<in> set todos. todo_id u < fst (addTodo t todos))
   \<and> snd (addTodo t todos) = todos @ [t\<lparr>todo_id := fst (addTodo t todos)\<rparr>]
   \<and> deleteTodo (fst (addTodo t todos)) (snd (addTodo t todos)) = (True, todos)
   \<and> fst (addTodo t' (snd (deleteTodo (fst (addTodo t todos)) (snd (addTodo t todos)))))
       = fst (addTodo t todos)"
proof -
  let ?n = "fst (addTodo t todos)"
  from addTodo_fresh [of t todos]
  have lt: "\<forall>u \<in> set todos. todo_id u < ?n"
    and app: "snd (addTodo t todos) = todos @ [t\<lparr>todo_id := ?n\<rparr>]"
    by simp_all
  from lt have "filter (\<lambda>u. todo_id u \<noteq> ?n) todos = todos"
    by (auto simp add: filter_id_conv)
  then have del: "deleteTodo ?n (snd (addTodo t todos)) = (True, todos)"
    unfolding app by (simp add: deleteTodo_def Let_def)
  have same: "fst (addTodo t' todos) = ?n"
    by (simp add: addTodo_def Let_def)
  from addTodo_fresh [of t todos] del same show ?thesis by simp
qed

theorem addTodo_next_id_witness:
  "fst (addTodo someTodo [someTodo\<lparr>todo_id := 1\<rparr>, someTodo\<lparr>todo_id := 5\<rparr>]) = 6
   \<and> fst (addTodo someTodo
        (snd (deleteTodo (fst (addTodo someTodo [someTodo\<lparr>todo_id := 1\<rparr>, someTodo\<lparr>todo_id := 5\<rparr>]))
          (snd (addTodo someTodo [someTodo\<lparr>todo_id := 1\<rparr>, someTodo\<lparr>todo_id := 5\<rparr>]))))) = 6"
proof -
  let ?table = "[someTodo\<lparr>todo_id := 1\<rparr>, someTodo\<lparr>todo_id := 5\<rparr>]"
  note inst = addTodo_next_id [of someTodo ?table someTodo]
  from inst have six: "fst (addTodo someTodo ?table) = 6"
    by simp
  from inst have again: "fst (addTodo someTodo
        (snd (deleteTodo (fst (addTodo someTodo ?table)) (snd (addTodo someTodo ?table)))))
       = fst (addTodo someTodo ?table)"
    by blast
  from six again show ?thesis by (simp only: simp_thms)
qed

subsection \<open>Normalization of subjects\<close>

lemma isWhiteSpace_lowerChar: "isWhiteSpace (lowerChar c) = isWhiteSpace c"
  by (auto simp add: isWhiteSpace_def lowerChar_def Let_def)

lemma lowerChar_idem: "lowerChar (lowerChar c) = lowerChar c"
  by (auto simp add: lowerChar_def Let_def)

lemma toLowerCase_idem: "toLowerCase (toLowerCase s) = toLowerCase s"
  by (simp add: toLowerCase_def lowerChar_idem)

lemma dropWhile_ws_lower:
  "dropWhile isWhiteSpace (map lowerChar s) = map lowerChar (dropWhile isWhiteSpace s)"
  by (induction s) (simp_all add: isWhiteSpace_lowerChar)

lemma trim_toLowerCase: "trim (toLowerCase s) = toLowerCase (trim s)"
  by (simp add: trim_def toLowerCase_def dropWhile_ws_lower rev_map)

lemma dropWhile_idem: "dropWhile P (dropWhile P xs) = dropWhile P xs"
  by (induction xs) simp_all

lemma dropWhile_snoc: "\<not> P x \<Longrightarrow> dropWhile P (ys @ [x]) = dropWhile P ys @ [x]"
  by (induction ys) simp_all

lemma trim_idem: "trim (trim s) = trim s"
proof (cases "dropWhile isWhiteSpace s")
  case Nil
  show ?thesis unfolding trim_def Nil by simp
next
  case (Cons x t)
  have "dropWhile isWhiteSpace s \<noteq> []" using Cons by simp
  then have "\<not> isWhiteSpace (hd (dropWhile isWhiteSpace s))" by (rule hd_dropWhile)
  with Cons have nw: "\<not> isWhiteSpace x" by simp
  let ?u = "x # rev (dropWhile isWhiteSpace (rev t))"
  have u: "trim s = ?u"
    using Cons nw by (simp add: trim_def dropWhile_snoc)
  have "rev ?u = dropWhile isWhiteSpace (rev t @ [x])"
    using nw by (simp add: dropWhile_snoc)
  then have "dropWhile isWhiteSpace (rev ?u) = rev ?u"
    by (simp only: dropWhile_idem)
  then have "trim ?u = ?u"
    using nw by (simp add: trim_def)
  with u show ?thesis by simp
qed

lemma normalizeSubject_idem: "normalizeSubject (normalizeSubject s) = normalizeSubject s"
  by (simp add: normalizeSubject_def trim_toLowerCase trim_idem toLowerCase_idem)

lemma normalize_Math: "normalizeSubject ''Math'' = ''math''"
  by code_simp

lemma normalize_math: "normalizeSubject ''math'' = ''math''"
  by code_simp

subsection \<open>Deleting a subject\<close>

text \<open>
  What \<^const>\<open>deleteSubjectCompletely\<close> does: both tables lose exactly the rows whose
  stored subject is the normalized argument, and the result says whether the timer table
  lost a row.
\<close>

lemma deleteSubjectCompletely_removes:
  "timer_data (snd (deleteSubjectCompletely subject db)) =
      filter (\<lambda>entry. td_subject entry \<noteq> normalizeSubject subject) (timer_data db)
   \<and> hidden_subjects (snd (deleteSubjectCompletely subject db)) =
      filter (\<lambda>hs. hs_subject hs \<noteq> normalizeSubject subject) (hidden_subjects db)
   \<and> fst (deleteSubjectCompletely subject db) =
      (normalizeSubject subject \<in> td_subject ` set (timer_data db))"
proof -
  have len: "length (filter P xs) < length xs \<longleftrightarrow> (\<exists>x \<in> set xs. \<not> P x)" for P and xs :: "'a list"
    by (induction xs) (auto simp add: less_Suc_eq_le)
  have same: "\<not> length (filter P xs) < length xs \<Longrightarrow> filter P xs = xs" for P and xs :: "'a list"
    using len [of P xs] by (simp add: filter_id_conv)
  show ?thesis
    by (auto simp add: deleteSubjectCompletely_def Let_def same len intro: rev_image_eqI)
qed

text \<open>
  C4 at the failing input: the subject is hidden and has no timer rows. The hidden row is
  removed, and the result is \<open>False\<close>.
\<close>

theorem deleteSubjectCompletely_hidden_only:
  "hideSubject newYear2025 ''Math'' emptyDb =
     (True, \<lparr>timer_data = [], hidden_subjects =
        [\<lparr>hs_id = 1, hs_subject = ''math'', hs_hidden_at = ''2025-01-01T08:00:00.000Z''\<rparr>]\<rparr>)
   \<and> deleteSubjectCompletely ''math'' (snd (hideSubject newYear2025 ''Math'' emptyDb)) = (False, emptyDb)"
  by code_simp

subsection \<open>The upsert of timer data\<close>

lemma updateFirst_snoc:
  "filter P xs = [] \<Longrightarrow> P x \<Longrightarrow> updateFirst P f (xs @ [x]) = xs @ [f x]"
  by (induction xs) (auto split: if_splits)

lemma map_updateFirst:
  "(\<And>x. k (f x) = k x) \<Longrightarrow> map k (updateFirst P f xs) = map k xs"
  by (induction xs) simp_all

lemma find_None_filter: "find P xs = None \<longleftrightarrow> filter P xs = []"
  by (induction xs) simp_all

lemma find_Some_P: "find P xs = Some x \<Longrightarrow> P x"
  by (induction xs) (auto split: if_splits)

lemma addOrUpdate_new:
  assumes "entriesFor (normalizeSubject subject) d timerData = []" and "d \<noteq> []"
  shows "snd (addOrUpdateTimerData clk subject (Some d) (Some m) timerData) =
     timerData @ [\<lparr>td_id = getNextId (map td_id timerData),
                   td_subject = normalizeSubject subject, td_date = d,
                   td_total_minutes = m, td_last_updated = toISOString clk\<rparr>]"
proof -
  have "find (\<lambda>entry. normalizeSubject (td_subject entry) = normalizeSubject subject
                               \<and> td_date entry = d) timerData = None"
    using assms(1) by (simp add: find_None_filter entriesFor_def)
  with assms(2) show ?thesis
    by (simp add: addOrUpdateTimerData_def Let_def)
qed

lemma addOrUpdate_existing_last:
  assumes "entriesFor (normalizeSubject subject) d timerData = []" and "d \<noteq> []"
    and "normalizeSubject (td_subject e) = normalizeSubject subject" and "td_date e = d"
  shows "snd (addOrUpdateTimerData clk subject (Some d) (Some m) (timerData @ [e])) =
     timerData @ [e\<lparr>td_total_minutes := td_total_minutes e + m, td_last_updated := toISOString clk\<rparr>]"
proof -
  let ?P = "\<lambda>entry. normalizeSubject (td_subject entry) = normalizeSubject subject
                               \<and> td_date entry = d"
  have f: "filter ?P timerData = []" using assms(1) by (simp add: entriesFor_def)
  then have "find ?P timerData = None" by (simp add: find_None_filter)
  then have "find ?P (timerData @ [e]) = Some e"
    using assms(3,4) by (induction timerData) (auto split: if_splits)
  moreover have "updateFirst ?P f' (timerData @ [e]) = timerData @ [f' e]" for f'
    using f assms(3,4) by (simp add: updateFirst_snoc)
  ultimately show ?thesis using assms(2)
    by (simp add: addOrUpdateTimerData_def Let_def)
qed

lemma addOrUpdate_keys:
  "distinct (map timerKey timerData) \<Longrightarrow>
   distinct (map timerKey (snd (addOrUpdateTimerData clk subject date minutes timerData)))"
proof -
  assume d: "distinct (map timerKey timerData)"
  obtain ad where ad: "ad = (case date of None \<Rightarrow> getCurrentLocalDate clk
                        | Some d \<Rightarrow> if d = [] then getCurrentLocalDate clk else d)" by simp
  let ?P = "\<lambda>entry. normalizeSubject (td_subject entry) = normalizeSubject subject
                               \<and> td_date entry = ad"
  show ?thesis
  proof (cases "find ?P timerData")
    case None
    then have "filter ?P timerData = []" by (simp add: find_None_filter)
    then have "(normalizeSubject subject, ad) \<notin> set (map timerKey timerData)"
      by (auto simp add: filter_empty_conv timerKey_def)
    with None d ad show ?thesis
      by (simp add: addOrUpdateTimerData_def Let_def timerKey_def normalizeSubject_idem)
  next
    case (Some e)
    have "map timerKey (updateFirst ?P f' timerData) = map timerKey timerData"
      if "\<And>x. timerKey (f' x) = timerKey x" for f'
      using that by (rule map_updateFirst)
    with Some d ad show ?thesis
      by (simp add: addOrUpdateTimerData_def Let_def timerKey_def)
  qed
qed

text \<open>
  C6: on a table with no row for the normalized key (math, 2025-01-01), adding 30 minutes
  for "Math" and then 15 minutes for "math" leaves exactly one row of that key, with 45
  minutes; and the upsert keeps the normalized (subject, date) keys of a table distinct.
\<close>

theorem upsert_case_normalization:
  "(entriesFor ''math'' ''2025-01-01'' timerData = [] \<longrightarrow>
      map td_total_minutes
        (entriesFor ''math'' ''2025-01-01''
          (snd (addOrUpdateTimerData clk2 ''math'' (Some ''2025-01-01'') (Some 15)
            (snd (addOrUpdateTimerData clk1 ''Math'' (Some ''2025-01-01'') (Some 30) timerData)))))
      = [45])
   \<and> (distinct (map timerKey timerData) \<longrightarrow>
        distinct (map timerKey (snd (addOrUpdateTimerData clk subject date minutes timerData))))"
proof (intro conjI impI)
  assume e: "entriesFor ''math'' ''2025-01-01'' timerData = []"
  let ?new = "\<lparr>td_id = getNextId (map td_id timerData),
                   td_subject = ''math'', td_date = ''2025-01-01'',
                   td_total_minutes = 30, td_last_updated = toISOString clk1\<rparr>"
  have 1: "snd (addOrUpdateTimerData clk1 ''Math'' (Some ''2025-01-01'') (Some 30) timerData)
      = timerData @ [?new]"
    using addOrUpdate_new [of "''Math''" "''2025-01-01''" timerData clk1 30] e
    by (simp add: normalize_Math)
  have 2: "snd (addOrUpdateTimerData clk2 ''math'' (Some ''2025-01-01'') (Some 15) (timerData @ [?new]))
      = timerData @ [?new\<lparr>td_total_minutes := td_total_minutes ?new + 15, td_last_updated := toISOString clk2\<rparr>]"
    using addOrUpdate_existing_last [of "''math''" "''2025-01-01''" timerData ?new clk2 15] e
    by (simp add: normalize_math)
  from e show "map td_total_minutes
        (entriesFor ''math'' ''2025-01-01''
          (snd (addOrUpdateTimerData clk2 ''math'' (Some ''2025-01-01'') (Some 15)
            (snd (addOrUpdateTimerData clk1 ''Math'' (Some ''2025-01-01'') (Some 30) timerData)))))
      = [45]"
    unfolding 1 2 by (simp add: entriesFor_def normalize_math)
next
  assume "distinct (map timerKey timerData)"
  then show "distinct (map timerKey (snd (addOrUpdateTimerData clk subject date minutes timerData)))"
    by (rule addOrUpdate_keys)
qed

theorem upsert_case_normalization_witness:
  "map td_total_minutes
     (entriesFor ''math'' ''2025-01-01''
       (snd (addOrUpdateTimerData newYear2025 ''math'' (Some ''2025-01-01'') (Some 15)
         (snd (addOrUpdateTimerData newYear2025 ''Math'' (Some ''2025-01-01'') (Some 30)
            [mathEntry 1 ''art'' ''2025-01-01'' 50])))))
     = [45]
   \<and> distinct (map timerKey
        (snd (addOrUpdateTimerData newYear2025 ''Art '' (Some ''2025-01-01'') (Some 5)
            [mathEntry 1 ''art'' ''2025-01-01'' 50])))"
proof -
  have e: "entriesFor ''math'' ''2025-01-01'' [mathEntry 1 ''art'' ''2025-01-01'' 50] = []"
    by code_simp
  have d: "distinct (map timerKey [mathEntry 1 ''art'' ''2025-01-01'' 50])"
    by simp
  show ?thesis
    using upsert_case_normalization [of "[mathEntry 1 ''art'' ''2025-01-01'' 50]"
        newYear2025 newYear2025 newYear2025 "''Art ''" "Some ''2025-01-01''" "Some 5"] e d
    by simp
qed

lemma sum_filter_updateFirst:
  fixes f :: "'a \<Rightarrow> int"
  assumes "\<And>x. Q (g x) = Q x" and "\<And>x. f (g x) = f x + m" and "\<And>x. P x \<Longrightarrow> Q x = c"
  shows "sum_list (map f (filter Q (updateFirst P g xs))) =
     sum_list (map f (filter Q xs)) + (if (\<exists>x \<in> set xs. P x) \<and> c then m else 0)"
  using assms by (induction xs) auto

lemma find_Some_ex: "find P xs = Some x \<Longrightarrow> \<exists>y \<in> set xs. P y"
  by (induction xs) (auto split: if_splits)

lemma find_Some_mem: "find P xs = Some x \<Longrightarrow> x \<in> set xs"
  by (induction xs) (auto split: if_splits)

lemma updateFirst_mem: "find P xs = Some x \<Longrightarrow> f x \<in> set (updateFirst P f xs)"
  by (induction xs) (auto split: if_splits)

lemma addOrUpdate_keyMinutes:
  "keyMinutes s d (snd (addOrUpdateTimerData clk subject dateArg minutesArg timerData)) =
     keyMinutes s d timerData
     + (if s = normalizeSubject subject
           \<and> d = (case dateArg of None \<Rightarrow> localDateString (newDate clk)
                   | Some x \<Rightarrow> if x = [] then localDateString (newDate clk) else x)
        then (case minutesArg of None \<Rightarrow> 1 | Some m \<Rightarrow> m) else 0)"
proof -
  define ad where "ad = (case dateArg of None \<Rightarrow> getCurrentLocalDate clk
                   | Some x \<Rightarrow> if x = [] then getCurrentLocalDate clk else x)"
  define mins where "mins = (case minutesArg of None \<Rightarrow> (1::int) | Some m \<Rightarrow> m)"
  let ?P = "\<lambda>entry. normalizeSubject (td_subject entry) = normalizeSubject subject
                               \<and> td_date entry = ad"
  let ?Q = "\<lambda>entry. normalizeSubject (td_subject entry) = s \<and> td_date entry = d"
  let ?bump = "\<lambda>e. e\<lparr>td_total_minutes := td_total_minutes e + mins,
                                  td_last_updated := toISOString clk\<rparr>"
  let ?new = "\<lparr>td_id = getNextId (map td_id timerData),
                 td_subject = normalizeSubject subject, td_date = ad,
                 td_total_minutes = mins, td_last_updated = toISOString clk\<rparr>"
  have eq: "snd (addOrUpdateTimerData clk subject dateArg minutesArg timerData) =
      (case find ?P timerData of
         Some e \<Rightarrow> updateFirst ?P ?bump timerData
       | None \<Rightarrow> timerData @ [?new])"
    by (simp add: addOrUpdateTimerData_def Let_def ad_def mins_def split: option.splits)
  have "keyMinutes s d (snd (addOrUpdateTimerData clk subject dateArg minutesArg timerData)) =
     keyMinutes s d timerData + (if s = normalizeSubject subject \<and> d = ad then mins else 0)"
  proof (cases "find ?P timerData")
    case None
    then show ?thesis
      unfolding eq by (auto simp add: keyMinutes_def entriesFor_def normalizeSubject_idem)
  next
    case (Some e)
    then have ex: "\<exists>x \<in> set timerData. ?P x" by (rule find_Some_ex)
    have "sum_list (map td_total_minutes (filter ?Q (updateFirst ?P ?bump timerData))) =
        sum_list (map td_total_minutes (filter ?Q timerData))
          + (if (\<exists>x \<in> set timerData. ?P x) \<and> (s = normalizeSubject subject \<and> d = ad) then mins else 0)"
      by (rule sum_filter_updateFirst) auto
    with ex Some show ?thesis
      unfolding eq by (simp add: keyMinutes_def entriesFor_def)
  qed
  then show ?thesis
    unfolding ad_def mins_def getCurrentLocalDate_def .
qed

lemma addOrUpdate_returned:
  "fst (addOrUpdateTimerData clk subject dateArg minutesArg timerData)
     \<in> set (snd (addOrUpdateTimerData clk subject dateArg minutesArg timerData))
   \<and> normalizeSubject (td_subject (fst (addOrUpdateTimerData clk subject dateArg minutesArg timerData)))
       = normalizeSubject subject"
proof -
  define ad where "ad = (case dateArg of None \<Rightarrow> getCurrentLocalDate clk
                   | Some x \<Rightarrow> if x = [] then getCurrentLocalDate clk else x)"
  define mins where "mins = (case minutesArg of None \<Rightarrow> (1::int) | Some m \<Rightarrow> m)"
  define P where "P = (\<lambda>entry :: timerData. normalizeSubject (td_subject entry) = normalizeSubject subject
                               \<and> td_date entry = ad)"
  define bump where "bump = (\<lambda>e :: timerData. e\<lparr>td_total_minutes := td_total_minutes e + mins,
                                  td_last_updated := toISOString clk\<rparr>)"
  let ?new = "\<lparr>td_id = getNextId (map td_id timerData),
                 td_subject = normalizeSubject subject, td_date = ad,
                 td_total_minutes = mins, td_last_updated = toISOString clk\<rparr>"
  have eq: "addOrUpdateTimerData clk subject dateArg minutesArg timerData =
      (case find P timerData of
         Some e \<Rightarrow> (bump e, updateFirst P bump timerData)
       | None \<Rightarrow> (?new, timerData @ [?new]))"
    by (simp add: addOrUpdateTimerData_def Let_def ad_def mins_def P_def bump_def
        split: option.splits)
  show ?thesis
  proof (cases "find P timerData")
    case None
    then show ?thesis unfolding eq by (simp add: normalizeSubject_idem)
  next
    case (Some e)
    from Some have "bump e \<in> set (updateFirst P bump timerData)" by (rule updateFirst_mem)
    moreover from Some have "P e" by (rule find_Some_P)
    then have "normalizeSubject (td_subject (bump e)) = normalizeSubject subject"
      by (simp add: P_def bump_def)
    ultimately show ?thesis unfolding eq using Some by simp
  qed
qed

text \<open>
  C9: with the date omitted or empty the minutes go to the key of the current local day,
  \<^const>\<open>localDateString\<close> of the clock: the minutes the table holds for the key of the
  normalized subject and that day grow by the minutes given, and no other key changes.
  With the minutes omitted exactly one minute is added. The row returned is in the new
  table, has the normalized subject of the call and, for an omitted date, the current day.
  An omitted argument behaves as the explicit default.
\<close>

theorem addOrUpdateTimerData_defaults:
  "addOrUpdateTimerData clk subject None minutes timerData =
     addOrUpdateTimerData clk subject (Some (localDateString (newDate clk))) minutes timerData
   \<and> addOrUpdateTimerData clk subject (Some []) minutes timerData =
     addOrUpdateTimerData clk subject (Some (localDateString (newDate clk))) minutes timerData
   \<and> td_date (fst (addOrUpdateTimerData clk subject None minutes timerData)) =
     localDateString (newDate clk)
   \<and> addOrUpdateTimerData clk subject date None timerData =
     addOrUpdateTimerData clk subject date (Some 1) timerData
   \<and> keyMinutes s d (snd (addOrUpdateTimerData clk subject None (Some m) timerData)) =
       keyMinutes s d timerData
         + (if s = normalizeSubject subject \<and> d = localDateString (newDate clk) then m else 0)
   \<and> keyMinutes s d (snd (addOrUpdateTimerData clk subject (Some []) (Some m) timerData)) =
       keyMinutes s d timerData
         + (if s = normalizeSubject subject \<and> d = localDateString (newDate clk) then m else 0)
   \<and> keyMinutes s d (snd (addOrUpdateTimerData clk subject None None timerData)) =
       keyMinutes s d timerData
         + (if s = normalizeSubject subject \<and> d = localDateString (newDate clk) then 1 else 0)
   \<and> (day \<noteq> [] \<longrightarrow>
        keyMinutes s d (snd (addOrUpdateTimerData clk subject (Some day) None timerData)) =
          keyMinutes s d timerData
            + (if s = normalizeSubject subject \<and> d = day then 1 else 0))
   \<and> fst (addOrUpdateTimerData clk subject None minutes timerData)
        \<in> set (snd (addOrUpdateTimerData clk subject None minutes timerData))
   \<and> normalizeSubject (td_subject (fst (addOrUpdateTimerData clk subject None minutes timerData)))
        = normalizeSubject subject"
proof -
  have dt: "td_date (fst (addOrUpdateTimerData clk subject None minutes timerData)) =
     localDateString (newDate clk)"
    by (auto simp add: addOrUpdateTimerData_def getCurrentLocalDate_def Let_def
        split: option.splits dest: find_Some_P)
  have eqs: "addOrUpdateTimerData clk subject None minutes timerData =
     addOrUpdateTimerData clk subject (Some (localDateString (newDate clk))) minutes timerData"
    "addOrUpdateTimerData clk subject (Some []) minutes timerData =
     addOrUpdateTimerData clk subject (Some (localDateString (newDate clk))) minutes timerData"
    "addOrUpdateTimerData clk subject date None timerData =
     addOrUpdateTimerData clk subject date (Some 1) timerData"
    by (simp_all add: addOrUpdateTimerData_def getCurrentLocalDate_def)
  have km: "keyMinutes s d (snd (addOrUpdateTimerData clk subject None (Some m) timerData)) =
       keyMinutes s d timerData
         + (if s = normalizeSubject subject \<and> d = localDateString (newDate clk) then m else 0)"
    "keyMinutes s d (snd (addOrUpdateTimerData clk subject (Some []) (Some m) timerData)) =
       keyMinutes s d timerData
         + (if s = normalizeSubject subject \<and> d = localDateString (newDate clk) then m else 0)"
    "keyMinutes s d (snd (addOrUpdateTimerData clk subject None None timerData)) =
       keyMinutes s d timerData
         + (if s = normalizeSubject subject \<and> d = localDateString (newDate clk) then 1 else 0)"
    "day \<noteq> [] \<longrightarrow>
        keyMinutes s d (snd (addOrUpdateTimerData clk subject (Some day) None timerData)) =
          keyMinutes s d timerData
            + (if s = normalizeSubject subject \<and> d = day then 1 else 0)"
    by (simp_all add: addOrUpdate_keyMinutes)
  from dt eqs km addOrUpdate_returned [of clk subject None minutes timerData]
  show ?thesis by blast
qed

theorem addOrUpdateTimerData_defaults_witness:
  "addOrUpdateTimerData newYear2025 ''Math'' None None
      [mathEntry 1 ''art'' ''2025-01-01'' 50, mathEntry 2 ''math'' ''2025-01-01'' 30] =
     (mathEntry 2 ''math'' ''2025-01-01'' 31,
      [mathEntry 1 ''art'' ''2025-01-01'' 50, mathEntry 2 ''math'' ''2025-01-01'' 31])
   \<and> keyMinutes ''math'' ''2025-01-01''
        [mathEntry 1 ''art'' ''2025-01-01'' 50, mathEntry 2 ''math'' ''2025-01-01'' 30] = 30
   \<and> keyMinutes ''math'' ''2025-01-01''
        (snd (addOrUpdateTimerData newYear2025 ''Math'' None None
           [mathEntry 1 ''art'' ''2025-01-01'' 50, mathEntry 2 ''math'' ''2025-01-01'' 30])) = 31
   \<and> keyMinutes ''math'' ''2025-01-01''
        (snd (addOrUpdateTimerData newYear2025 ''Math'' (Some ''2025-01-01'') None [])) = 1"
proof -
  have today: "localDateString (newDate newYear2025) = ''2025-01-01''"
    by code_simp
  have n: "normalizeSubject ''Math'' = ''math''"
    by (rule normalize_Math)
  have k0: "keyMinutes ''math'' ''2025-01-01''
        [mathEntry 1 ''art'' ''2025-01-01'' 50, mathEntry 2 ''math'' ''2025-01-01'' 30] = 30"
    by code_simp
  have k1: "keyMinutes ''math'' ''2025-01-01'' [] = 0"
    by (simp add: keyMinutes_def entriesFor_def)
  have run: "addOrUpdateTimerData newYear2025 ''Math'' None None
      [mathEntry 1 ''art'' ''2025-01-01'' 50, mathEntry 2 ''math'' ''2025-01-01'' 30] =
     (mathEntry 2 ''math'' ''2025-01-01'' 31,
      [mathEntry 1 ''art'' ''2025-01-01'' 50, mathEntry 2 ''math'' ''2025-01-01'' 31])"
    by code_simp
  from addOrUpdateTimerData_defaults [of newYear2025 "''Math''" None
      "[mathEntry 1 ''art'' ''2025-01-01'' 50, mathEntry 2 ''math'' ''2025-01-01'' 30]"
      None "''math''" "''2025-01-01''" 0 "''2025-01-01''"]
    addOrUpdateTimerData_defaults [of newYear2025 "''Math''" None "[]"
      None "''math''" "''2025-01-01''" 0 "''2025-01-01''"]
    today n k0 k1 run
  show ?thesis by simp
qed

subsection \<open>Range aggregation\<close>

lemma mset_insort_cmp: "mset (insort_cmp cmp x xs) = add_mset x (mset xs)"
  by (induction xs) simp_all

lemma mset_sort_cmp: "mset (sort_cmp cmp xs) = mset xs"
  by (induction xs) (simp_all add: sort_cmp_def mset_insort_cmp)

lemma set_sort_cmp: "set (sort_cmp cmp xs) = set xs"
  using mset_sort_cmp [of cmp xs] by (metis set_mset_mset)

lemma sum_filter_mset:
  fixes f :: "'a \<Rightarrow> int"
  shows "mset xs = mset ys \<Longrightarrow> sum_list (map f (filter P xs)) = sum_list (map f (filter P ys))"
proof -
  assume "mset xs = mset ys"
  then have "mset (map f (filter P xs)) = mset (map f (filter P ys))"
    by (metis mset_filter mset_map)
  then have "sum_mset (mset (map f (filter P xs))) = sum_mset (mset (map f (filter P ys)))"
    by simp
  then show ?thesis by (simp only: sum_mset_sum_list)
qed

lemma distinct_fst_sort_cmp:
  "distinct (map fst xs) \<Longrightarrow> distinct (map fst (sort_cmp cmp xs))"
proof -
  assume d: "distinct (map fst xs)"
  have "mset (map fst (sort_cmp cmp xs)) = mset (map fst xs)"
    by (simp add: mset_sort_cmp)
  with d show ?thesis by (metis distinct_count_atmost_1 set_mset_mset)
qed

lemma map_of_sort_cmp:
  "distinct (map fst xs) \<Longrightarrow> map_of (sort_cmp cmp xs) = map_of xs"
  by (simp add: map_of_inject_set distinct_fst_sort_cmp set_sort_cmp)

lemma distinct_addToTotals:
  "distinct (map fst totals) \<Longrightarrow> distinct (map fst (addToTotals entry totals))"
  by (simp add: addToTotals_def Let_def distinct_update)

lemma distinct_fold_addToTotals:
  "distinct (map fst totals) \<Longrightarrow> distinct (map fst (fold addToTotals data totals))"
  by (induction data arbitrary: totals) (simp_all add: distinct_addToTotals)

lemma totalFor_addToTotals:
  "totalFor S (addToTotals entry totals) =
     totalFor S totals + (if td_subject entry = S then td_total_minutes entry else 0)"
  by (simp add: totalFor_def addToTotals_def Let_def update_conv' split: option.splits)

lemma totalFor_fold:
  "totalFor S (fold addToTotals data totals) =
     totalFor S totals + sum_list (map td_total_minutes (filter (\<lambda>e. td_subject e = S) data))"
  by (induction data arbitrary: totals) (simp_all add: totalFor_addToTotals)

text \<open>
  C7: for every table, subject and range (bounds present or not), the minutes of the rows
  of \<^const>\<open>getSubjectDateAggregatedData\<close> with that subject add up to the total that
  \<^const>\<open>getSubjectTotalsByDateRange\<close> reports for the subject (zero when it reports none);
  the report has one row per subject.
\<close>

theorem aggregation_consistency:
  "sum_list (map sd_total_minutes
      (filter (\<lambda>row. sd_subject row = S)
         (getSubjectDateAggregatedData localeCompare startDate endDate allData)))
   = totalFor S (getSubjectTotalsByDateRange startDate endDate allData)
   \<and> distinct (map fst (getSubjectTotalsByDateRange startDate endDate allData))"
proof -
  let ?data = "rangeData startDate endDate allData"
  let ?rows = "map (\<lambda>entry. \<lparr>sd_subject = td_subject entry, sd_date = td_date entry,
                            sd_total_minutes = td_total_minutes entry\<rparr>) ?data"
  have d: "distinct (map fst (fold addToTotals ?data []))"
    by (rule distinct_fold_addToTotals) simp
  have "sum_list (map sd_total_minutes (filter (\<lambda>row. sd_subject row = S)
          (sort_cmp (\<lambda>a b. localeCompare (sd_date b) (sd_date a)) ?rows)))
        = sum_list (map sd_total_minutes (filter (\<lambda>row. sd_subject row = S) ?rows))"
    by (rule sum_filter_mset) (rule mset_sort_cmp)
  also have "\<dots> = sum_list (map td_total_minutes (filter (\<lambda>e. td_subject e = S) ?data))"
    by (simp add: filter_map comp_def)
  also have "\<dots> = totalFor S (fold addToTotals ?data [])"
    by (simp add: totalFor_fold) (simp add: totalFor_def)
  also have "\<dots> = totalFor S (sort_cmp (\<lambda>a b. snd b - snd a) (fold addToTotals ?data []))"
    by (simp add: totalFor_def map_of_sort_cmp [OF d])
  finally show ?thesis
    using d by (simp add: getSubjectDateAggregatedData_def getSubjectTotalsByDateRange_def Let_def
        distinct_fst_sort_cmp)
qed

theorem aggregation_consistency_witness:
  "sum_list (map sd_total_minutes
      (filter (\<lambda>row. sd_subject row = ''math'')
         (getSubjectDateAggregatedData codeUnitCompare (Some ''2025-01-01'') (Some ''2025-01-31'')
            sampleData))) = 45
   \<and> getSubjectTotalsByDateRange (Some ''2025-01-01'') (Some ''2025-01-31'') sampleData
       = [(''art'', 50), (''math'', 45)]"
proof -
  have t: "getSubjectTotalsByDateRange (Some ''2025-01-01'') (Some ''2025-01-31'') sampleData
       = [(''art'', 50), (''math'', 45)]"
    by code_simp
  then have "totalFor ''math''
      (getSubjectTotalsByDateRange (Some ''2025-01-01'') (Some ''2025-01-31'') sampleData) = 45"
    by (simp add: totalFor_def)
  with aggregation_consistency [of "''math''" codeUnitCompare "Some ''2025-01-01''"
      "Some ''2025-01-31''" sampleData] t
  show ?thesis by simp
qed

subsection \<open>Sessions\<close>

lemma findIndex_None: "findIndex P xs = None \<longleftrightarrow> \<not> (\<exists>x \<in> set xs. P x)"
  by (induction xs) simp_all

lemma findIndex_Some:
  "findIndex P xs = Some i \<Longrightarrow> i < length xs \<and> P (xs ! i)"
  by (induction xs arbitrary: i) (auto split: if_splits)

text \<open>
  C3, as stated, fails: for an id that no session has, \<^const>\<open>completeSessionInStore\<close> (and
  \<^const>\<open>completeSession\<close>, which passes the call on) throws the error
  \<^verbatim>\<open>session not found\<close>; the outcome is an exception, not a boolean or optional result.
\<close>

theorem completeSession_throws:
  "completeSession utcMachine ''s_9_9'' 25 0 oneSession =
     (Inl (Error ''session not found''), oneSession)"
  by (simp add: completeSession_def completeSessionInStore_def oneSession_def mathSession_def)

text \<open>
  C3, amended: for an id that no session has, \<^const>\<open>completeSessionInStore\<close> and
  \<^const>\<open>completeSession\<close> throw \<^verbatim>\<open>session not found\<close> and leave the store (sessions,
  daily stats, subject totals) as it was; the handler of \<^verbatim>\<open>sessions:complete\<close> catches
  the error and answers \<open>False\<close>, with the store unchanged.
\<close>

theorem completeSession_unknown_id:
  assumes "sessionId \<notin> session_id ` set (sessions st)"
  shows "completeSessionInStore m sessionId d p st = (Inl (Error ''session not found''), st)
       \<and> completeSession m sessionId d p st = (Inl (Error ''session not found''), st)
       \<and> sessions_complete senderValid m sessionId d p st = (False, st)"
proof -
  have "findIndex (\<lambda>r. session_id r = sessionId) (sessions st) = None"
    using assms by (auto simp add: findIndex_None)
  then show ?thesis
    by (simp add: sessions_complete_def completeSession_def completeSessionInStore_def)
qed

theorem completeSession_unknown_id_witness:
  "completeSessionInStore utcMachine ''s_9_9'' 25 0 oneSession = (Inl (Error ''session not found''), oneSession)
   \<and> sessions_complete True utcMachine ''s_9_9'' 25 0 oneSession = (False, oneSession)"
  using completeSession_unknown_id [of "''s_9_9''" oneSession utcMachine 25 0 True]
  by (simp add: oneSession_def mathSession_def)

text \<open>
  C10, as stated, fails at the empty id: it is the id of no session, and
  \<^const>\<open>updateSessionProgress\<close> throws \<^verbatim>\<open>sessionId required\<close> instead of returning
  \<^verbatim>\<open>null\<close>.
\<close>

theorem updateSessionProgress_empty_id:
  "updateSessionProgress [] 120 0 oneSession = (Inl (Error ''sessionId required''), oneSession)
   \<and> [] \<notin> session_id ` set (sessions oneSession)"
  by (simp add: updateSessionProgress_def oneSession_def mathSession_def)

text \<open>
  C10, amended: an empty id is rejected with the error \<^verbatim>\<open>sessionId required\<close>, the store
  unchanged. For a non-empty id that no session has, the result is \<^verbatim>\<open>null\<close> and the store
  is unchanged. For a non-empty id of a stored session, the first session with the id gets
  \<^verbatim>\<open>durationMinutes = max(0, floor(activeSeconds / 60))\<close> and
  \<^verbatim>\<open>pausedSeconds = max(0, pausedSeconds)\<close>, is returned, and nothing else changes.
\<close>

theorem updateSessionProgress_cases:
  "updateSessionProgress [] a p st = (Inl (Error ''sessionId required''), st)
   \<and> (sessionId \<noteq> [] \<and> sessionId \<notin> session_id ` set (sessions st) \<longrightarrow>
        updateSessionProgress sessionId a p st = (Inr None, st))
   \<and> (sessionId \<noteq> [] \<and> sessionId \<in> session_id ` set (sessions st) \<longrightarrow>
        (\<exists>idx < length (sessions st).
           session_id (sessions st ! idx) = sessionId
           \<and> sessionId \<notin> session_id ` set (take idx (sessions st))
           \<and> updateSessionProgress sessionId a p st =
               (Inr (Some ((sessions st ! idx)\<lparr>durationMinutes := Some (max 0 (a div 60)),
                                               pausedSeconds := Some (max 0 p)\<rparr>)),
                st\<lparr>sessions := (sessions st)[idx :=
                     (sessions st ! idx)\<lparr>durationMinutes := Some (max 0 (a div 60)),
                                          pausedSeconds := Some (max 0 p)\<rparr>]\<rparr>)))"
proof (intro conjI impI)
  show "updateSessionProgress [] a p st = (Inl (Error ''sessionId required''), st)"
    by (simp add: updateSessionProgress_def)
next
  assume "sessionId \<noteq> [] \<and> sessionId \<notin> session_id ` set (sessions st)"
  then have "sessionId \<noteq> []" and "findIndex (\<lambda>r. session_id r = sessionId) (sessions st) = None"
    by (auto simp add: findIndex_None)
  then show "updateSessionProgress sessionId a p st = (Inr None, st)"
    by (simp add: updateSessionProgress_def)
next
  assume a: "sessionId \<noteq> [] \<and> sessionId \<in> session_id ` set (sessions st)"
  then have "findIndex (\<lambda>r. session_id r = sessionId) (sessions st) \<noteq> None"
    by (auto simp add: findIndex_None)
  then obtain idx where idx: "findIndex (\<lambda>r. session_id r = sessionId) (sessions st) = Some idx"
    by auto
  have first: "findIndex P xs = Some i \<Longrightarrow> \<not> (\<exists>x \<in> set (take i xs). P x)" for P i and xs :: "'a list"
    by (induction xs arbitrary: i) (auto split: if_splits)
  from idx have "idx < length (sessions st)" "session_id (sessions st ! idx) = sessionId"
    by (auto dest: findIndex_Some)
  moreover from first [OF idx] have "sessionId \<notin> session_id ` set (take idx (sessions st))"
    by auto
  moreover from a idx have "updateSessionProgress sessionId a p st =
               (Inr (Some ((sessions st ! idx)\<lparr>durationMinutes := Some (max 0 (a div 60)),
                                               pausedSeconds := Some (max 0 p)\<rparr>)),
                st\<lparr>sessions := (sessions st)[idx :=
                     (sessions st ! idx)\<lparr>durationMinutes := Some (max 0 (a div 60)),
                                          pausedSeconds := Some (max 0 p)\<rparr>]\<rparr>)"
    by (simp add: updateSessionProgress_def Let_def)
  ultimately show "\<exists>idx < length (sessions st).
           session_id (sessions st ! idx) = sessionId
           \<and> sessionId \<notin> session_id ` set (take idx (sessions st))
           \<and> updateSessionProgress sessionId a p st =
               (Inr (Some ((sessions st ! idx)\<lparr>durationMinutes := Some (max 0 (a div 60)),
                                               pausedSeconds := Some (max 0 p)\<rparr>)),
                st\<lparr>sessions := (sessions st)[idx :=
                     (sessions st ! idx)\<lparr>durationMinutes := Some (max 0 (a div 60)),
                                          pausedSeconds := Some (max 0 p)\<rparr>]\<rparr>)"
    by blast
qed

theorem updateSessionProgress_cases_witness:
  "updateSessionProgress ''s_9_9'' 125 (- 3) oneSession = (Inr None, oneSession)
   \<and> updateSessionProgress ''s_1_1'' 125 (- 3) oneSession =
       (Inr (Some (mathSession\<lparr>durationMinutes := Some 2, pausedSeconds := Some 0\<rparr>)),
        oneSession\<lparr>sessions := [mathSession\<lparr>durationMinutes := Some 2, pausedSeconds := Some 0\<rparr>]\<rparr>)"
  using updateSessionProgress_cases [of 125 "- 3" oneSession "''s_9_9''"]
    updateSessionProgress_cases [of 125 "- 3" oneSession "''s_1_1''"]
  by (simp add: oneSession_def mathSession_def)

subsection \<open>Daily stats and subject totals\<close>

lemma snd_rethrow:
  "snd (case p of (Inl e, s) \<Rightarrow> (Inl e, s) | (Inr t, s) \<Rightarrow> (Inr x, s)) = snd p"
  by (cases p; cases "fst p") auto

lemma sum_filter_update:
  fixes f :: "'a \<Rightarrow> int"
  shows "i < length xs \<Longrightarrow>
    sum_list (map f (filter P (xs[i := y]))) =
      sum_list (map f (filter P xs)) - (if P (xs ! i) then f (xs ! i) else 0)
        + (if P y then f y else 0)"
proof (induction xs arbitrary: i)
  case Nil
  then show ?case by simp
next
  case (Cons x xs)
  show ?case
  proof (cases i)
    case 0
    then show ?thesis by simp
  next
    case (Suc j)
    with Cons.prems have "j < length xs" by simp
    from Cons.IH [OF this] Suc show ?thesis by simp
  qed
qed

lemma incr_totals:
  "\<not> inheritedKey k \<Longrightarrow>
   totalTime k (snd (incrementSubjectTotal name minutes st)) =
     totalTime k st + (if k = normalizeSubject name \<and> k \<noteq> [] then max 0 minutes else 0)"
  by (auto simp add: incrementSubjectTotal_def totalTime_def normalizeSubject_def Let_def
      update_conv' split: option.splits)

lemma incr_daily: "dailyStats (snd (incrementSubjectTotal name minutes st)) = dailyStats st"
  by (simp add: incrementSubjectTotal_def Let_def split: option.splits)

lemma incr_sessions: "sessions (snd (incrementSubjectTotal name minutes st)) = sessions st"
  by (simp add: incrementSubjectTotal_def Let_def split: option.splits)


lemma upd_invalid:
  "date = [] \<or> normalizeSubject subject = [] \<Longrightarrow>
   snd (updateDailyStat date subject incs st) = st"
  by (auto simp add: updateDailyStat_def normalizeSubject_def)

lemma upd_daily:
  assumes "date \<noteq> []" and "normalizeSubject subject \<noteq> []"
  shows "dailyStats (snd (updateDailyStat date subject incs st)) =
     (case findIndex (\<lambda>d. stat_date d = date \<and> stat_subject d = normalizeSubject subject) (dailyStats st) of
        None \<Rightarrow> dailyStats st @ [rowOf date (normalizeSubject subject) incs]
      | Some idx \<Rightarrow> (dailyStats st)[idx := bumped (dailyStats st ! idx) incs])"
  using assms
  by (simp add: updateDailyStat_def normalizeSubject_def Let_def snd_rethrow incr_daily rowOf_def
      bumped_def split: option.splits)

lemma upd_sessions: "sessions (snd (updateDailyStat date subject incs st)) = sessions st"
  by (simp add: updateDailyStat_def Let_def snd_rethrow incr_sessions split: option.splits)

lemma upd_totals:
  assumes "date \<noteq> []" and "normalizeSubject subject \<noteq> []" and "rowsNonNegative st"
    and k: "\<not> inheritedKey k"
  shows "totalTime k (snd (updateDailyStat date subject incs st)) =
     totalTime k st + (if k = normalizeSubject subject then max 0 (orZero (inc_timeInSubject incs)) else 0)"
proof (cases "findIndex (\<lambda>d. stat_date d = date \<and> stat_subject d = normalizeSubject subject) (dailyStats st)")
  case None
  have t: "totalTime k' (st\<lparr>dailyStats := x\<rparr>) = totalTime k' st" for x k'
    by (simp add: totalTime_def)
  have i: "totalTime k' (snd (incrementSubjectTotal n x s')) =
      totalTime k' s' + (if k' = normalizeSubject n \<and> k' \<noteq> [] then max 0 x else 0)"
    if "k' = k" for k' n x s'
    using that incr_totals [OF k] by simp
  from None assms(1,2) show ?thesis
    by (simp add: updateDailyStat_def Let_def snd_rethrow i t
        normalizeSubject_idem normalizeSubject_def [symmetric])
next
  case (Some idx)
  then have "idx < length (dailyStats st)" by (auto dest: findIndex_Some)
  with assms(3) have nn: "0 \<le> timeInSubject (dailyStats st ! idx)"
    by (simp add: rowsNonNegative_def list_all_length)
  have t: "totalTime k' (st\<lparr>dailyStats := x\<rparr>) = totalTime k' st" for x k'
    by (simp add: totalTime_def)
  have i: "totalTime k' (snd (incrementSubjectTotal n x s')) =
      totalTime k' s' + (if k' = normalizeSubject n \<and> k' \<noteq> [] then max 0 x else 0)"
    if "k' = k" for k' n x s'
    using that incr_totals [OF k] by simp
  from Some assms(1,2) nn show ?thesis
    by (simp add: updateDailyStat_def Let_def snd_rethrow i t
        normalizeSubject_idem normalizeSubject_def [symmetric])
qed


lemma upd_sum:
  assumes "date \<noteq> []" and "normalizeSubject subject \<noteq> []" and "rowsNonNegative st"
    and Q: "\<And>d d'. stat_date d = stat_date d' \<Longrightarrow> stat_subject d = stat_subject d' \<Longrightarrow> Q d = Q d'"
  shows "sum_list (map timeInSubject (filter Q (dailyStats (snd (updateDailyStat date subject incs st))))) =
     sum_list (map timeInSubject (filter Q (dailyStats st)))
       + (if Q (rowOf date (normalizeSubject subject) incs)
          then max 0 (orZero (inc_timeInSubject incs)) else 0)"
proof (cases "findIndex (\<lambda>d. stat_date d = date \<and> stat_subject d = normalizeSubject subject) (dailyStats st)")
  case None
  with assms(1,2) show ?thesis
    by (simp add: upd_daily) (simp add: rowOf_def)
next
  case (Some idx)
  then have i: "idx < length (dailyStats st)"
    and k: "stat_date (dailyStats st ! idx) = date"
       "stat_subject (dailyStats st ! idx) = normalizeSubject subject"
    by (auto dest: findIndex_Some)
  with assms(3) have nn: "0 \<le> timeInSubject (dailyStats st ! idx)"
    by (simp add: rowsNonNegative_def list_all_length)
  have q1: "Q (bumped (dailyStats st ! idx) incs) = Q (dailyStats st ! idx)"
    by (rule Q) (simp_all add: bumped_def)
  have q2: "Q (rowOf date (normalizeSubject subject) incs) = Q (dailyStats st ! idx)"
    by (rule Q) (simp_all add: rowOf_def k)
  have tb: "timeInSubject (bumped (dailyStats st ! idx) incs) =
      timeInSubject (dailyStats st ! idx) + max 0 (orZero (inc_timeInSubject incs))"
    using nn by (simp add: bumped_def)
  from Some assms(1,2) show ?thesis
    by (simp add: upd_daily sum_filter_update [OF i] q1 q2 tb)
qed

lemma upd_keySum:
  assumes "date \<noteq> []" and "normalizeSubject subject \<noteq> []" and "rowsNonNegative st"
  shows "keySum d s (snd (updateDailyStat date subject incs st)) =
     keySum d s st + (if d = date \<and> s = normalizeSubject subject
                      then max 0 (orZero (inc_timeInSubject incs)) else 0)"
  unfolding keySum_def
  by (subst upd_sum [OF assms]) (auto simp add: rowOf_def)

lemma upd_subjectSum:
  assumes "date \<noteq> []" and "normalizeSubject subject \<noteq> []" and "rowsNonNegative st"
  shows "subjectSum s (snd (updateDailyStat date subject incs st)) =
     subjectSum s st + (if s = normalizeSubject subject
                        then max 0 (orZero (inc_timeInSubject incs)) else 0)"
  unfolding subjectSum_def
  by (subst upd_sum [OF assms]) (auto simp add: rowOf_def)

lemma upd_nonneg:
  "rowsNonNegative st \<Longrightarrow> rowsNonNegative (snd (updateDailyStat date subject incs st))"
proof (cases "date = [] \<or> normalizeSubject subject = []")
  case True
  assume "rowsNonNegative st"
  with True show ?thesis by (simp add: upd_invalid)
next
  case False
  assume a: "rowsNonNegative st"
  from False have v: "date \<noteq> []" "normalizeSubject subject \<noteq> []" by simp_all
  have "list_all (\<lambda>d. 0 \<le> timeInSubject d) (xs[i := bumped (xs ! i) incs])"
    if "list_all (\<lambda>d. 0 \<le> timeInSubject d) xs" for xs i
    using that by (auto simp add: list_all_iff bumped_def dest!: set_update_subset_insert [THEN subsetD])
  with a show ?thesis
    by (simp add: rowsNonNegative_def upd_daily [OF v] rowOf_def split: option.splits)
qed

lemma add_daily:
  "dailyStats (snd (addDailyStat stat st)) = dailyStats st @
     [\<lparr>stat_date = stat_date stat, stat_subject = normalizeSubject (stat_subject stat),
       timeInSubject = max 0 (timeInSubject stat), breakMinutes = max 0 (breakMinutes stat),
       pauseMinutes = max 0 (pauseMinutes stat)\<rparr>]"
  by (simp add: addDailyStat_def Let_def snd_rethrow incr_daily normalizeSubject_def)

lemma add_sessions: "sessions (snd (addDailyStat stat st)) = sessions st"
  by (simp add: addDailyStat_def Let_def snd_rethrow incr_sessions)

lemma add_totals:
  "\<not> inheritedKey k \<Longrightarrow>
   totalTime k (snd (addDailyStat stat st)) =
     totalTime k st + (if k = normalizeSubject (stat_subject stat) \<and> k \<noteq> []
                       then max 0 (timeInSubject stat) else 0)"
proof -
  have t: "totalTime k' (st\<lparr>dailyStats := x\<rparr>) = totalTime k' st" for x k'
    by (simp add: totalTime_def)
  assume k: "\<not> inheritedKey k"
  have i: "totalTime k' (snd (incrementSubjectTotal n x s')) =
      totalTime k' s' + (if k' = normalizeSubject n \<and> k' \<noteq> [] then max 0 x else 0)"
    if "k' = k" for k' n x s'
    using that incr_totals [OF k] by simp
  show ?thesis
    by (simp add: addDailyStat_def Let_def snd_rethrow i t normalizeSubject_idem
        normalizeSubject_def [symmetric])
qed

lemma add_keySum:
  "keySum d s (snd (addDailyStat stat st)) =
     keySum d s st + (if stat_date stat = d \<and> normalizeSubject (stat_subject stat) = s
                      then max 0 (timeInSubject stat) else 0)"
  by (simp add: keySum_def add_daily)

lemma add_subjectSum:
  "subjectSum s (snd (addDailyStat stat st)) =
     subjectSum s st + (if normalizeSubject (stat_subject stat) = s
                        then max 0 (timeInSubject stat) else 0)"
  by (simp add: subjectSum_def add_daily)

lemma add_nonneg: "rowsNonNegative st \<Longrightarrow> rowsNonNegative (snd (addDailyStat stat st))"
  by (simp add: rowsNonNegative_def add_daily)


lemma sessions_upd_irrelevant:
  "keySum d s (st\<lparr>sessions := x\<rparr>) = keySum d s st"
  "subjectSum s (st\<lparr>sessions := x\<rparr>) = subjectSum s st"
  "totalTime s (st\<lparr>sessions := x\<rparr>) = totalTime s st"
  "rowsNonNegative (st\<lparr>sessions := x\<rparr>) = rowsNonNegative st"
  by (simp_all add: keySum_def subjectSum_def totalTime_def rowsNonNegative_def)

lemma complete_snd:
  "snd (completeSessionInStore m sessionId durationArg pausedArg st) =
     (case findIndex (\<lambda>r. session_id r = sessionId) (sessions st) of
        None \<Rightarrow> st
      | Some idx \<Rightarrow>
          snd (updateDailyStat (localDateString (localFields m (startTime (sessions st ! idx))))
                 (subjectName (sessions st ! idx)) (completionIncs durationArg)
                 (st\<lparr>sessions := (sessions st)[idx := (sessions st ! idx)\<lparr>endTime := Some (dateNow m),
                                     durationMinutes := Some (max 0 durationArg),
                                     pausedSeconds := Some (max 0 pausedArg)\<rparr>]\<rparr>)))"
  by (simp add: completeSessionInStore_def Let_def snd_rethrow completionIncs_def orZero_def
      split: option.splits)

lemma step_nonneg: "rowsNonNegative st \<Longrightarrow> rowsNonNegative (storeStep m op st)"
  by (cases op)
     (simp_all add: upd_nonneg add_nonneg complete_snd sessions_upd_irrelevant split: option.splits)

lemma step_keySum:
  assumes "rowsNonNegative st"
  shows "keySum d s (storeStep m op st) = keySum d s st + appliedTo m d s op st"
proof (cases op)
  case (UpdateDailyStat date subject incs)
  show ?thesis
  proof (cases "date = [] \<or> normalizeSubject subject = []")
    case True
    with UpdateDailyStat show ?thesis by (auto simp add: upd_invalid)
  next
    case False
    with UpdateDailyStat assms show ?thesis by (auto simp add: upd_keySum)
  qed
next
  case (AddDailyStat stat)
  then show ?thesis by (simp add: add_keySum)
next
  case (CompleteSession sessionId durationArg pausedArg)
  show ?thesis
  proof (cases "findIndex (\<lambda>r. session_id r = sessionId) (sessions st)")
    case None
    with CompleteSession show ?thesis by (simp add: complete_snd)
  next
    case (Some idx)
    let ?date = "localDateString (localFields m (startTime (sessions st ! idx)))"
    let ?subject = "subjectName (sessions st ! idx)"
    show ?thesis
    proof (cases "?date = [] \<or> normalizeSubject ?subject = []")
      case True
      with CompleteSession Some show ?thesis
        by (auto simp add: complete_snd upd_invalid sessions_upd_irrelevant Let_def)
    next
      case False
      with CompleteSession Some assms show ?thesis
        by (auto simp add: complete_snd upd_keySum sessions_upd_irrelevant Let_def
            completionIncs_def orZero_def)
    qed
  qed
qed

lemma step_sync:
  assumes "rowsNonNegative st" and "s \<noteq> []" and "\<not> inheritedKey s"
  shows "totalTime s (storeStep m op st) - subjectSum s (storeStep m op st) =
         totalTime s st - subjectSum s st"
proof (cases op)
  case (UpdateDailyStat date subject incs)
  show ?thesis
  proof (cases "date = [] \<or> normalizeSubject subject = []")
    case True
    with UpdateDailyStat show ?thesis by (auto simp add: upd_invalid)
  next
    case False
    with UpdateDailyStat assms show ?thesis by (auto simp add: upd_subjectSum upd_totals)
  qed
next
  case (AddDailyStat stat)
  with assms(2,3) show ?thesis by (auto simp add: add_subjectSum add_totals)
next
  case (CompleteSession sessionId durationArg pausedArg)
  show ?thesis
  proof (cases "findIndex (\<lambda>r. session_id r = sessionId) (sessions st)")
    case None
    with CompleteSession show ?thesis by (simp add: complete_snd)
  next
    case (Some idx)
    let ?date = "localDateString (localFields m (startTime (sessions st ! idx)))"
    let ?subject = "subjectName (sessions st ! idx)"
    show ?thesis
    proof (cases "?date = [] \<or> normalizeSubject ?subject = []")
      case True
      with CompleteSession Some show ?thesis
        by (auto simp add: complete_snd upd_invalid sessions_upd_irrelevant)
    next
      case False
      with CompleteSession Some assms show ?thesis
        by (auto simp add: complete_snd upd_subjectSum upd_totals sessions_upd_irrelevant)
    qed
  qed
qed

lemma run_nonneg: "rowsNonNegative st \<Longrightarrow> rowsNonNegative (fold (storeStep m) ops st)"
  by (induction ops arbitrary: st) (simp_all add: step_nonneg)

lemma daily_stats_ledger:
  "rowsNonNegative st \<Longrightarrow>
   keySum d s (fold (storeStep m) ops st) = keySum d s st + ledger m d s ops st"
proof (induction ops arbitrary: st)
  case Nil
  then show ?case by simp
next
  case (Cons op ops)
  from Cons.prems have "rowsNonNegative (storeStep m op st)" by (rule step_nonneg)
  from Cons.IH [OF this] Cons.prems show ?case by (simp add: step_keySum)
qed

lemma totals_in_sync:
  "rowsNonNegative st \<Longrightarrow> s \<noteq> [] \<Longrightarrow> \<not> inheritedKey s \<Longrightarrow>
   totalTime s (fold (storeStep m) ops st) - subjectSum s (fold (storeStep m) ops st) =
   totalTime s st - subjectSum s st"
proof (induction ops arbitrary: st)
  case Nil
  then show ?case by simp
next
  case (Cons op ops)
  from Cons.prems have "rowsNonNegative (storeStep m op st)" by (simp add: step_nonneg)
  from Cons.IH [OF this Cons.prems(2,3)] Cons.prems show ?case by (simp add: step_sync)
qed

text \<open>
  What holds in the model (integer minutes, ASCII subjects). From a store with no daily
  stats and no subject totals (with any
  sessions), after any sequence of calls of \<^const>\<open>updateDailyStat\<close>, \<^const>\<open>addDailyStat\<close>
  and \<^const>\<open>completeSessionInStore\<close>, failed calls included: the rows of every
  (date, subject) key add up to the minutes the calls applied to the key, and for every
  subject but the empty one and the two inherited keys the subject total is the sum over
  the rows of the subject.
\<close>

lemma daily_stats_invariant:
  assumes "dailyStats st = []" and "subjectTotals st = []"
  shows "keySum d s (fold (storeStep m) ops st) = ledger m d s ops st
       \<and> (s \<noteq> [] \<and> \<not> inheritedKey s \<longrightarrow>
            totalTime s (fold (storeStep m) ops st) = subjectSum s (fold (storeStep m) ops st))"
proof -
  have nn: "rowsNonNegative st" using assms by (simp add: rowsNonNegative_def)
  have z: "keySum d s st = 0" "totalTime s st = 0" "subjectSum s st = 0"
    using assms by (simp_all add: keySum_def totalTime_def subjectSum_def)
  from daily_stats_ledger [OF nn, of d s m ops] totals_in_sync [OF nn, of s m ops] z
  show ?thesis by simp
qed

text \<open>
  The inherited keys: for the subject \<^verbatim>\<open>constructor\<close> the row is stored and no total is,
  without an error.
\<close>

lemma addDailyStat_inherited_key:
  "addDailyStat (blankStat\<lparr>stat_subject := ''Constructor''\<rparr>) emptyStore =
     (Inr \<lparr>stat_date = ''2025-01-01'', stat_subject = ''constructor'', timeInSubject = 5,
            breakMinutes = 0, pauseMinutes = 0\<rparr>,
      \<lparr>subjectTotals = [],
       dailyStats = [\<lparr>stat_date = ''2025-01-01'', stat_subject = ''constructor'',
                      timeInSubject = 5, breakMinutes = 0, pauseMinutes = 0\<rparr>],
       sessions = []\<rparr>)"
  by code_simp

text \<open>
  C5 at the failing input: \<^const>\<open>addDailyStat\<close> with a subject that normalizes to the
  empty string, on the empty store. The row is stored, then \<^const>\<open>incrementSubjectTotal\<close>
  throws: the rows of the subject hold 5 minutes, its total is 0.
\<close>

theorem addDailyStat_blank_subject:
  "addDailyStat blankStat emptyStore =
     (Inl (Error ''Invalid subject name''),
      \<lparr>subjectTotals = [],
       dailyStats = [\<lparr>stat_date = ''2025-01-01'', stat_subject = [], timeInSubject = 5,
                      breakMinutes = 0, pauseMinutes = 0\<rparr>],
       sessions = []\<rparr>)
   \<and> subjectSum [] (snd (addDailyStat blankStat emptyStore)) = 5
   \<and> totalTime [] (snd (addDailyStat blankStat emptyStore)) = 0"
  by code_simp

subsection \<open>The reminder checker\<close>

lemma writeCSV_ok: "writeCSV {} d fs = (Inr (), fs\<lparr>primary := Some d, temp := None,
    backup := (if primary fs = None then backup fs else primary fs)\<rparr>)"
  by (cases "primary fs") (simp_all add: writeCSV_def writeFileSync_def renameSync_def existsSync_def)

lemma load_after_save: "loadReminders (snd (saveReminders {} list fs)) = list"
  by (simp add: saveReminders_def writeCSV_ok loadReminders_def)

lemma check_fired:
  "fst (check faults now fs) = filter (\<lambda>r. reminder_timestamp r \<le> now) (loadReminders fs)"
  by (simp add: check_def Let_def)

lemma filter_none_due:
  "filter (\<lambda>r. reminder_timestamp r \<le> now) list = [] \<Longrightarrow>
   filter (\<lambda>r. reminder_timestamp r > now) list = list"
  by (induction list) (auto split: if_splits)

lemma check_persisted:
  "loadReminders (snd (check {} now fs)) = filter (\<lambda>r. reminder_timestamp r > now) (loadReminders fs)"
  by (simp add: check_def Let_def load_after_save filter_none_due)

lemma ticks_Cons:
  "ticks ((faults, now) # rest) fs =
     (fst (check faults now fs) # fst (ticks rest (snd (check faults now fs))),
      snd (ticks rest (snd (check faults now fs))))"
  by (simp add: Let_def split: prod.splits)

lemma never_fired_if_absent:
  "r \<notin> set (loadReminders fs) \<Longrightarrow>
   filter (\<lambda>fired. r \<in> set fired) (fst (ticks (map (Pair {}) nows) fs)) = []
   \<and> r \<notin> set (loadReminders (snd (ticks (map (Pair {}) nows) fs)))"
proof (induction nows arbitrary: fs)
  case Nil
  then show ?case by simp
next
  case (Cons now nows)
  from Cons.prems have "r \<notin> set (loadReminders (snd (check {} now fs)))"
    by (simp add: check_persisted)
  from Cons.IH [OF this] Cons.prems show ?case
    by (simp add: ticks_Cons check_fired del: ticks.simps)
qed

lemma fired_once:
  "r \<in> set (loadReminders fs) \<Longrightarrow> \<exists>now \<in> set nows. reminder_timestamp r \<le> now \<Longrightarrow>
   length (filter (\<lambda>fired. r \<in> set fired) (fst (ticks (map (Pair {}) nows) fs))) = 1
   \<and> r \<notin> set (loadReminders (snd (ticks (map (Pair {}) nows) fs)))"
proof (induction nows arbitrary: fs)
  case Nil
  then show ?case by simp
next
  case (Cons now nows)
  show ?case
  proof (cases "reminder_timestamp r \<le> now")
    case True
    then have "r \<notin> set (loadReminders (snd (check {} now fs)))"
      by (simp add: check_persisted)
    from never_fired_if_absent [OF this, of nows] True Cons.prems(1) show ?thesis
      by (simp add: ticks_Cons check_fired del: ticks.simps)
  next
    case False
    with Cons.prems have in': "r \<in> set (loadReminders (snd (check {} now fs)))"
      and ex: "\<exists>now \<in> set nows. reminder_timestamp r \<le> now"
      by (auto simp add: check_persisted)
    from Cons.IH [OF in' ex] False show ?thesis
      by (simp add: ticks_Cons check_fired del: ticks.simps)
  qed
qed

lemma ascending_filter: "ascending list \<Longrightarrow> ascending (filter P list)"
  unfolding ascending_def by (induction list) auto

lemma fired_ascending:
  "ascending (loadReminders fs) \<Longrightarrow> list_all ascending (fst (ticks (map (Pair {}) nows) fs))"
proof (induction nows arbitrary: fs)
  case Nil
  then show ?case by simp
next
  case (Cons now nows)
  from Cons.prems have "ascending (loadReminders (snd (check {} now fs)))"
    by (simp add: check_persisted ascending_filter)
  from Cons.IH [OF this] Cons.prems show ?case
    by (simp add: ticks_Cons check_fired ascending_filter del: ticks.simps)
qed


lemma ascending_Nil: "ascending []" by (simp add: ascending_def)

lemma writeCSV_slots:
  "slotsAscending fs \<Longrightarrow> ascending d \<Longrightarrow> slotsAscending (snd (writeCSV faults d fs))"
  by (auto simp add: slotsAscending_def loadReminders_def writeCSV_def writeFileSync_def
      renameSync_def existsSync_def restoreBackup_def ascending_Nil
      split: option.splits sum.splits if_splits)

lemma set_insort_cmp: "set (insort_cmp cmp x xs) = insert x (set xs)"
  by (induction xs) auto

lemma sorted_insort_cmp:
  "sorted (map f xs) \<Longrightarrow> sorted (map f (insort_cmp (\<lambda>a b. f a - f b) x xs))"
  for f :: "'a \<Rightarrow> int"
  by (induction xs) (auto simp add: set_insort_cmp)

lemma sorted_sort_cmp: "sorted (map f (sort_cmp (\<lambda>a b. f a - f b) xs))"
  for f :: "'a \<Rightarrow> int"
  by (induction xs) (simp_all add: sort_cmp_def sorted_insort_cmp)

lemma snd_reminder_add:
  "snd (reminder_add faults rid title body (Some ts) fs) =
     snd (writeCSV faults
       (sort_cmp (\<lambda>a b. reminder_timestamp a - reminder_timestamp b)
          (loadReminders fs @ [\<lparr>reminder_id = rid, reminder_title = title,
             reminder_body = (if body = Some [] then None else body),
             reminder_timestamp = ts\<rparr>])) fs)"
  by (simp add: reminder_add_def Let_def saveReminders_def split: prod.splits sum.splits)

lemma reminder_add_slots:
  "slotsAscending fs \<Longrightarrow> slotsAscending (snd (reminder_add faults rid title body normalized fs))"
proof (cases normalized)
  case None
  assume "slotsAscending fs"
  with None show ?thesis by (simp add: reminder_add_def)
next
  case (Some ts)
  assume a: "slotsAscending fs"
  have "slotsAscending (snd (writeCSV faults (sort_cmp (\<lambda>a b. reminder_timestamp a - reminder_timestamp b) l) fs))" for l
    by (rule writeCSV_slots [OF a]) (simp add: ascending_def sorted_sort_cmp)
  with Some show ?thesis
    by (simp only: snd_reminder_add)
qed

lemma reminder_remove_slots:
  "slotsAscending fs \<Longrightarrow> slotsAscending (snd (reminder_remove faults rid fs))"
proof -
  assume a: "slotsAscending fs"
  then have "ascending (filter (\<lambda>r. reminder_id r \<noteq> rid) (loadReminders fs))"
    by (simp add: slotsAscending_def ascending_filter)
  from writeCSV_slots [OF a this, of faults] show ?thesis
    by (auto simp add: reminder_remove_def Let_def saveReminders_def split: prod.splits sum.splits)
qed

lemma check_slots: "slotsAscending fs \<Longrightarrow> slotsAscending (snd (check faults now fs))"
proof -
  assume a: "slotsAscending fs"
  then have "ascending (filter (\<lambda>r. reminder_timestamp r > now) (loadReminders fs))"
    by (simp add: slotsAscending_def ascending_filter)
  from writeCSV_slots [OF a this, of faults] a show ?thesis
    by (simp add: check_def Let_def saveReminders_def)
qed

lemma applyOp_slots: "slotsAscending fs \<Longrightarrow> slotsAscending (applyOp op fs)"
  by (cases op) (simp_all add: reminder_add_slots reminder_remove_slots check_slots)

lemma api_slots: "slotsAscending fs \<Longrightarrow> slotsAscending (fold applyOp ops fs)"
  by (induction ops arbitrary: fs) (simp_all add: applyOp_slots)

lemma api_ascending: "ascending (loadReminders (fold applyOp ops newRemindersFile))"
proof -
  have "slotsAscending newRemindersFile"
    by (simp add: slotsAscending_def newRemindersFile_def loadReminders_def ascending_def)
  from api_slots [OF this, of ops] show ?thesis by (simp add: slotsAscending_def)
qed

text \<open>A save that fails leaves a fired reminder in the file, and the next tick fires it
  again.\<close>

lemma failed_save_fires_again:
  "fst (ticks [({WriteTemp}, 2000), ({}, 2500)] twoReminders) = [[standUp], [standUp]]"
  by code_simp

lemma twoReminders_reachable:
  "fold applyOp [Add {} ''r2'' ''Call home'' None (Some 5000), Add {} ''r1'' ''Stand up'' None (Some 1000)]
     newRemindersFile = \<lparr>primary = Some [standUp, callHome], temp = None, backup = Some [callHome]\<rparr>"
  by code_simp

text \<open>
  C8: ticks whose saves succeed. A stored reminder that is due at one of the ticks is fired
  by exactly one tick and is not in the file afterwards. A tick fires the due reminders in
  the order of the file and keeps the others; the file is in ascending order of timestamp
  after any sequence of \<^verbatim>\<open>reminder:add\<close>, \<^verbatim>\<open>reminder:remove\<close> and ticks from the new
  file, and then every tick fires in ascending order of timestamp.
\<close>

theorem reminder_fired_exactly_once:
  assumes "r \<in> set (loadReminders fs)"
    and "\<exists>now \<in> set nows. reminder_timestamp r \<le> now"
  shows "length (filter (\<lambda>fired. r \<in> set fired) (fst (ticks (map (Pair {}) nows) fs))) = 1
       \<and> r \<notin> set (loadReminders (snd (ticks (map (Pair {}) nows) fs)))
       \<and> fst (check {} now fs) = filter (\<lambda>x. reminder_timestamp x \<le> now) (loadReminders fs)
       \<and> loadReminders (snd (check {} now fs)) =
           filter (\<lambda>x. reminder_timestamp x > now) (loadReminders fs)
       \<and> (ascending (loadReminders fs) \<longrightarrow>
            list_all ascending (fst (ticks (map (Pair {}) nows) fs)))
       \<and> ascending (loadReminders (fold applyOp ops newRemindersFile))"
  using fired_once [OF assms] fired_ascending [of fs nows] api_ascending [of ops]
  by (simp add: check_fired check_persisted)

theorem reminder_fired_exactly_once_witness:
  "standUp \<in> set (loadReminders twoReminders)
   \<and> reminder_timestamp standUp \<le> 2000
   \<and> length (filter (\<lambda>fired. standUp \<in> set fired)
        (fst (ticks (map (Pair {}) [500, 2000, 2500, 7000]) twoReminders))) = 1
   \<and> standUp \<notin> set (loadReminders (snd (ticks (map (Pair {}) [500, 2000, 2500, 7000]) twoReminders)))
   \<and> fst (ticks (map (Pair {}) [500, 2000, 2500, 7000]) twoReminders)
       = [[], [standUp], [], [callHome]]"
proof -
  have h1: "standUp \<in> set (loadReminders twoReminders)"
    by (simp add: loadReminders_def twoReminders_def)
  have h2: "\<exists>now \<in> set [500, 2000, 2500, 7000]. reminder_timestamp standUp \<le> now"
    by (simp add: standUp_def)
  have h3: "fst (ticks (map (Pair {}) [500, 2000, 2500, 7000]) twoReminders)
       = [[], [standUp], [], [callHome]]"
    by code_simp
  from reminder_fired_exactly_once [OF h1 h2] h1 h3 show ?thesis
    by (simp add: standUp_def)
qed


end
